theory Spec2Isabelle
  imports Main "HOL-Library.List_Lexorder" "HOL-Library.Char_ord"
begin

section \<open>Strings and the text layer\<close>

text \<open>
  A Python \<open>str\<close> is modelled by its UTF-8 bytes: \<^typ>\<open>string\<close> is a list of
  8-bit characters. Nothing in the program counts characters; it concatenates, compares,
  sorts and tests prefixes, and UTF-8 keeps the code point order, so the byte view gives
  the same answers.
\<close>

type_synonym path = string

definition LF :: char where "LF = CHR 0x0A"
definition CR :: char where "CR = CHR 0x0D"

definition startswith :: "string \<Rightarrow> string \<Rightarrow> bool" where
  "startswith s t = (take (length t) s = t)"

text \<open>
  Files are opened in text mode with the default \<open>newline=None\<close>: on reading, every
  \<open>\r\n\<close> and every lone \<open>\r\<close> is handed to the program as \<open>\n\<close>. On writing,
  \<open>\n\<close> becomes \<open>os.linesep\<close>, which is \<open>\n\<close> on POSIX, the platform modelled here,
  so a written string reaches the file unchanged.
\<close>

fun universal_newlines :: "string \<Rightarrow> string" where
  "universal_newlines [] = []"
| "universal_newlines [c] = (if c = CR then [LF] else [c])"
| "universal_newlines (c # d # s) =
     (if c = CR then (if d = LF then LF # universal_newlines s
                      else LF # universal_newlines (d # s))
      else c # universal_newlines (d # s))"

text \<open>\<open>f.readlines()\<close>: the text cut after every \<open>\n\<close>, each line keeping its \<open>\n\<close>.\<close>

fun readlines :: "string \<Rightarrow> string list" where
  "readlines [] = []"
| "readlines (c # s) =
     (if c = LF then [LF] # readlines s
      else (case readlines s of [] \<Rightarrow> [[c]] | l # ls \<Rightarrow> (c # l) # ls))"

text \<open>
  \<open>str.splitlines()\<close> cuts at every line boundary Python knows and drops the boundary:
  \<open>\n\<close>, \<open>\r\<close>, \<open>\r\n\<close>, \<open>\v\<close>, \<open>\f\<close>, the separators \<open>\x1c\<close>, \<open>\x1d\<close>, \<open>\x1e\<close>,
  NEL (U+0085, bytes C2 85), and the line and paragraph separators (U+2028 and U+2029,
  bytes E2 80 A8 and E2 80 A9). \<open>line_boundary s\<close> is the number of bytes of the boundary
  that \<open>s\<close> starts with, 0 when it starts with none.
\<close>

definition line_boundary :: "string \<Rightarrow> nat" where
  "line_boundary s =
     (case s of
        [] \<Rightarrow> 0
      | c # t \<Rightarrow>
          if c = CR then (if take 1 t = [LF] then 2 else 1)
          else if c = LF \<or> c = CHR 0x0B \<or> c = CHR 0x0C
                  \<or> c = CHR 0x1C \<or> c = CHR 0x1D \<or> c = CHR 0x1E then 1
          else if c = CHR 0xC2 \<and> take 1 t = [CHR 0x85] then 2
          else if c = CHR 0xE2 \<and> (take 2 t = [CHR 0x80, CHR 0xA8]
                                  \<or> take 2 t = [CHR 0x80, CHR 0xA9]) then 3
          else 0)"

text \<open>
  \<open>splitlines_from skip cur s\<close>: \<open>cur\<close> is the line being collected, \<open>skip\<close> the bytes of
  a boundary still to pass over.
\<close>

fun splitlines_from :: "nat \<Rightarrow> string \<Rightarrow> string \<Rightarrow> string list" where
  "splitlines_from skip cur [] = (if cur = [] then [] else [cur])"
| "splitlines_from (Suc k) cur (c # s) = splitlines_from k cur s"
| "splitlines_from 0 cur (c # s) =
     (let k = line_boundary (c # s)
      in if k = 0 then splitlines_from 0 (cur @ [c]) s
         else cur # splitlines_from (k - 1) [] s)"

definition splitlines :: "string \<Rightarrow> string list" where
  "splitlines s = splitlines_from 0 [] s"

text \<open>
  Slice assignment \<open>xs[i:j] = ys\<close>: a negative index counts from the end, both indices
  are clamped into \<open>0..len(xs)\<close>, and a stop before the start is moved to the start.
\<close>

definition slice_index :: "int \<Rightarrow> nat \<Rightarrow> nat" where
  "slice_index i n = (if i < 0 then nat (max 0 (i + int n)) else min (nat i) n)"

definition slice_assign :: "'a list \<Rightarrow> int \<Rightarrow> int \<Rightarrow> 'a list \<Rightarrow> 'a list" where
  "slice_assign xs i j ys =
     (let a = slice_index i (length xs);
          b = max a (slice_index j (length xs))
      in take a xs @ ys @ drop b xs)"

section \<open>The world the program runs in\<close>

text \<open>
  Every exception the program meets is an instance of \<open>Exception\<close>; it is kept as the
  text \<open>str(e)\<close> gives, the only thing the program reads from it.
\<close>

datatype exn = Exception string

fun str :: "exn \<Rightarrow> string" where
  "str (Exception m) = m"

text \<open>
  A regular file holds bytes that decode as UTF-8, or is one whose opening or decoding
  raises.
\<close>

datatype fobj = Regular string | Unreadable exn

text \<open>
  A directory is its listing, in the order \<open>os.listdir\<close> returns it; an entry is a name
  with \<open>Some\<close> subdirectory, or \<open>None\<close> for anything \<open>os.path.isdir\<close> rejects. A directory
  whose listing raises is \<open>Denied\<close>. A tree is finite: a link that leads back into its
  own ancestors, on which the walk of the renderer would not end, has no counterpart
  here.
\<close>

datatype dir = Dir "(string \<times> dir option) list" | Denied exn

record repo =
  bare :: bool
  origin :: "string option"

text \<open>
  The world is what the operating system answers for a path string: the directory, the
  regular file and the repository found there, the error raised for a path that holds
  none, and the faults of the calls that change it. The program reads each of the three
  views through calls of its own, and they are kept apart: a file written does not
  show in a listing, and nothing proved below needs that it would.
\<close>

record world =
  dirs :: "path \<Rightarrow> dir option"
  files :: "path \<Rightarrow> fobj option"
  repos :: "path \<Rightarrow> repo option"
  oserror :: "path \<Rightarrow> exn"
  makedirs_error :: "path \<Rightarrow> exn option"
  open_w_error :: "path \<Rightarrow> exn option"
  rmtree_fails :: "path \<Rightarrow> bool"

definition os_path_exists :: "world \<Rightarrow> path \<Rightarrow> bool" where
  "os_path_exists w p = (dirs w p \<noteq> None \<or> files w p \<noteq> None)"

definition os_path_isfile :: "world \<Rightarrow> path \<Rightarrow> bool" where
  "os_path_isfile w p = (files w p \<noteq> None)"

text \<open>\<open>open(p, 'r', encoding='utf-8')\<close> followed by a read of the whole file.\<close>

definition open_read :: "world \<Rightarrow> path \<Rightarrow> exn + string" where
  "open_read w p =
     (case files w p of
        None \<Rightarrow> Inl (oserror w p)
      | Some (Unreadable e) \<Rightarrow> Inl e
      | Some (Regular b) \<Rightarrow> Inr (universal_newlines b))"

text \<open>
  \<open>open(p, 'w', encoding='utf-8')\<close> followed by a write of \<open>s\<close>. The fault of a write is
  the one of opening the file; once open, the file takes the whole string.
\<close>

definition open_write :: "world \<Rightarrow> path \<Rightarrow> string \<Rightarrow> exn + world" where
  "open_write w p s =
     (case open_w_error w p of
        Some e \<Rightarrow> Inl e
      | None \<Rightarrow> Inr (w\<lparr>files := (files w)(p \<mapsto> Regular s)\<rparr>))"

text \<open>\<open>os.path.join\<close> of two parts and \<open>os.path.dirname\<close>, as \<open>posixpath\<close> computes them.\<close>

definition os_path_join :: "path \<Rightarrow> path \<Rightarrow> path" where
  "os_path_join a b =
     (if startswith b ''/'' then b
      else if a = [] \<or> last a = CHR ''/'' then a @ b
      else a @ ''/'' @ b)"

definition os_path_dirname :: "path \<Rightarrow> path" where
  "os_path_dirname p =
     (let head = rev (dropWhile (\<lambda>c. c \<noteq> CHR ''/'') (rev p))
      in if head \<noteq> [] \<and> \<not> list_all (\<lambda>c. c = CHR ''/'') head
         then rev (dropWhile (\<lambda>c. c = CHR ''/'') (rev head))
         else head)"

text \<open>
  \<open>os.makedirs(p, exist_ok=True)\<close>: it raises what the world says, and otherwise the
  directory is there afterwards, empty when it is new.
\<close>

definition os_makedirs :: "world \<Rightarrow> path \<Rightarrow> exn + world" where
  "os_makedirs w p =
     (case makedirs_error w p of
        Some e \<Rightarrow> Inl e
      | None \<Rightarrow>
          Inr (case dirs w p of
                 None \<Rightarrow> w\<lparr>dirs := (dirs w)(p \<mapsto> Dir [])\<rparr>
               | Some d \<Rightarrow> w))"

text \<open>
  \<open>shutil.rmtree(p, ignore_errors=True)\<close> never raises. It removes the directory at \<open>p\<close>
  with everything below it; when the deletion fails, the error is swallowed and the
  tree stays. A regular file at \<open>p\<close> itself is not a tree and is left alone.
\<close>

definition below :: "path \<Rightarrow> path \<Rightarrow> bool" where
  "below p q = startswith q (p @ ''/'')"

definition shutil_rmtree :: "world \<Rightarrow> path \<Rightarrow> world" where
  "shutil_rmtree w p =
     (if rmtree_fails w p then w
      else w\<lparr>dirs := (\<lambda>q. if q = p \<or> below p q then None else dirs w q),
             files := (\<lambda>q. if below p q then None else files w q),
             repos := (\<lambda>q. if q = p \<or> below p q then None else repos w q)\<rparr>)"

section \<open>The workspace resolver\<close>

text \<open>
  What the program takes from its libraries: the SHA-256 digest in hexadecimal, the
  directory for temporary files, and \<open>git.Repo.clone_from\<close>, which changes the world and
  either returns or raises.
\<close>

record env =
  sha256_hexdigest :: "string \<Rightarrow> string"
  gettempdir :: path
  clone_from :: "string \<Rightarrow> path \<Rightarrow> world \<Rightarrow> exn option \<times> world"

text \<open>
  Lines 40 to 48 of \<open>clone_repo\<close>: create the directory and clone into it; when the clone
  raises, remove the directory and raise the wrapped error. An error of \<open>os.makedirs\<close>
  is outside the \<open>try\<close> and leaves as it is.
\<close>

definition clone_fresh :: "env \<Rightarrow> world \<Rightarrow> string \<Rightarrow> path \<Rightarrow> (exn + path) \<times> world" where
  "clone_fresh env w repo_url temp_dir =
     (case os_makedirs w temp_dir of
        Inl e \<Rightarrow> (Inl e, w)
      | Inr w1 \<Rightarrow>
          (case clone_from env repo_url temp_dir w1 of
             (None, w2) \<Rightarrow> (Inr temp_dir, w2)
           | (Some e, w2) \<Rightarrow>
               (Inl (Exception (''Failed to clone repository: '' @ str e)),
                shutil_rmtree w2 temp_dir)))"

definition cache_dir :: "env \<Rightarrow> string \<Rightarrow> path" where
  "cache_dir env repo_url =
     (let repo_hash = take 12 (sha256_hexdigest env repo_url)
      in os_path_join (gettempdir env) (''github_tools_'' @ repo_hash))"

text \<open>
  Lines 31 to 38 of \<open>clone_repo\<close>, the look at an existing cache directory: either the
  directory is returned as it is, or the function goes on to the clone in the world this
  part leaves. \<open>git.Repo(temp_dir)\<close> raises where the world holds no repository, and
  \<open>repo.remote()\<close> raises where the repository has no remote \<open>origin\<close>; both land in the bare
  \<open>except\<close>, the only place that removes the directory. A bare repository and a different
  origin raise nothing: the \<open>if\<close> is false and the function goes on with the directory
  in place.
\<close>

datatype cache_check = Reuse | Continue world

definition existing_cache :: "world \<Rightarrow> path \<Rightarrow> string \<Rightarrow> cache_check" where
  "existing_cache w temp_dir repo_url =
     (if os_path_exists w temp_dir then
        (case repos w temp_dir of
           None \<Rightarrow> Continue (shutil_rmtree w temp_dir)
         | Some r \<Rightarrow>
             if \<not> bare r then
               (case origin r of
                  None \<Rightarrow> Continue (shutil_rmtree w temp_dir)
                | Some url \<Rightarrow> if url = repo_url then Reuse else Continue w)
             else Continue w)
      else Continue w)"

definition clone_repo :: "env \<Rightarrow> world \<Rightarrow> string \<Rightarrow> (exn + path) \<times> world" where
  "clone_repo env w repo_url =
     (if \<not> startswith repo_url ''https://github.com/'' \<and> os_path_exists w repo_url
      then (Inr repo_url, w)
      else
        let temp_dir = cache_dir env repo_url
        in case existing_cache w temp_dir repo_url of
             Reuse \<Rightarrow> (Inr temp_dir, w)
           | Continue w0 \<Rightarrow> clone_fresh env w0 repo_url temp_dir)"

section \<open>The tree renderer\<close>

text \<open>
  The branch glyphs, as UTF-8: U+251C U+2500 U+2500 and a space for an entry that is
  not the last, U+2514 U+2500 U+2500 and a space for the last, U+2502 and three spaces
  or four spaces for the indentation below them.
\<close>

definition branch_mid :: string where
  "branch_mid = [CHR 0xE2, CHR 0x94, CHR 0x9C, CHR 0xE2, CHR 0x94, CHR 0x80,
                 CHR 0xE2, CHR 0x94, CHR 0x80, CHR 0x20]"

definition branch_last :: string where
  "branch_last = [CHR 0xE2, CHR 0x94, CHR 0x94, CHR 0xE2, CHR 0x94, CHR 0x80,
                  CHR 0xE2, CHR 0x94, CHR 0x80, CHR 0x20]"

definition indent_bar :: string where
  "indent_bar = [CHR 0xE2, CHR 0x94, CHR 0x82, CHR 0x20, CHR 0x20, CHR 0x20]"

definition indent_blank :: string where
  "indent_blank = [CHR 0x20, CHR 0x20, CHR 0x20, CHR 0x20]"

text \<open>
  \<open>get_directory_tree\<close> is given the directory found at its path. Its loop is
  \<open>entries_loop\<close>: \<open>es\<close> is the listing (for \<open>os.path.isdir\<close> of an entry), \<open>entries\<close> the
  sorted names, \<open>i\<close> the index of the next entry, \<open>rest\<close> the entries from \<open>i\<close> on and
  \<open>output\<close> the text so far. \<open>is_last\<close> compares \<open>i\<close> with the length of \<open>entries\<close>, the
  skipped names included.
\<close>

function get_directory_tree :: "dir \<Rightarrow> string \<Rightarrow> exn + string"
  and entries_loop ::
    "(string \<times> dir option) list \<Rightarrow> string \<Rightarrow> string list \<Rightarrow> nat \<Rightarrow> string list \<Rightarrow> string
       \<Rightarrow> exn + string"
where
  "get_directory_tree (Denied e) prefix = Inl e"
| "get_directory_tree (Dir es) prefix =
     entries_loop es prefix (sort (map fst es)) 0 (sort (map fst es)) []"
| "entries_loop es prefix entries i [] output = Inr output"
| "entries_loop es prefix entries i (entry # rest) output =
     (if startswith entry ''.git'' then entries_loop es prefix entries (i + 1) rest output
      else
        let is_last = (int i = int (length entries) - 1);
            current_prefix = (if is_last then branch_last else branch_mid);
            next_prefix = (if is_last then indent_blank else indent_bar);
            output1 = output @ prefix @ current_prefix @ entry @ [LF]
        in case map_of es entry of
             Some (Some d) \<Rightarrow>
               (case get_directory_tree d (prefix @ next_prefix) of
                  Inl e \<Rightarrow> Inl e
                | Inr sub \<Rightarrow> entries_loop es prefix entries (i + 1) rest (output1 @ sub))
           | _ \<Rightarrow> entries_loop es prefix entries (i + 1) rest output1)"
  by pat_completeness auto
termination
proof -
  have child: "size d < size (Dir es)" if "map_of es n = Some (Some d)"
    for es :: "(string \<times> dir option) list" and n d
    using that by (induction es) (auto split: if_splits)
  show ?thesis
    by (relation "measures
          [\<lambda>x. case x of Inl (d, p) \<Rightarrow> size d | Inr (es, r) \<Rightarrow> size (Dir es),
           \<lambda>x. case x of
                  Inl (d, p) \<Rightarrow> (case d of Dir es \<Rightarrow> Suc (length es) | Denied e \<Rightarrow> 0)
                | Inr (es, p, entries, i, rest, out) \<Rightarrow> length rest]")
       (auto dest: child)
qed

section \<open>The file writer\<close>

text \<open>
  \<open>modify_file_content\<close>: with either line number missing the file is opened for writing
  and given the content; with both, the file is read into lines, the slice from
  \<open>start_idx\<close> to \<open>end_idx\<close> is replaced by the lines of the content, each with a line
  feed added, and the lines are written back.
\<close>

definition modify_file_content ::
  "world \<Rightarrow> path \<Rightarrow> string \<Rightarrow> int option \<Rightarrow> int option \<Rightarrow> exn + world" where
  "modify_file_content w file_path content start_line end_line =
     (case start_line of
        None \<Rightarrow> open_write w file_path content
      | Some s \<Rightarrow>
         (case end_line of
            None \<Rightarrow> open_write w file_path content
          | Some e \<Rightarrow>
             (case open_read w file_path of
                Inl x \<Rightarrow> Inl x
              | Inr text \<Rightarrow>
                  let lines = readlines text;
                      start_idx = max 0 (s - 1);
                      end_idx = min (int (length lines)) e;
                      new_lines = splitlines content
                  in open_write w file_path
                       (concat (slice_assign lines start_idx end_idx
                                  (map (\<lambda>line. line @ [LF]) new_lines))))))"

section \<open>The boundary operations\<close>

text \<open>
  A \<open>try\<close> block with \<open>except Exception as e\<close>: what the block raises is handed to the
  handler, whose value is returned. \<open>Inl\<close> in the result of an operation would be an
  exception that leaves it.
\<close>

definition try_except :: "(exn + 'a) \<times> world \<Rightarrow> (exn \<Rightarrow> 'a) \<Rightarrow> (exn + 'a) \<times> world" where
  "try_except body handler =
     (case body of
        (Inl e, w) \<Rightarrow> (Inr (handler e), w)
      | (Inr v, w) \<Rightarrow> (Inr v, w))"

text \<open>\<open>os.listdir\<close> at the root of the walk: a path that holds no directory raises.\<close>

definition tree_at :: "world \<Rightarrow> path \<Rightarrow> exn + string" where
  "tree_at w p =
     (case dirs w p of
        None \<Rightarrow> Inl (oserror w p)
      | Some d \<Rightarrow> get_directory_tree d [])"

definition directory_structure_body :: "env \<Rightarrow> world \<Rightarrow> string \<Rightarrow> (exn + string) \<times> world" where
  "directory_structure_body env w repo_url =
     (case clone_repo env w repo_url of
        (Inl e, w1) \<Rightarrow> (Inl e, w1)
      | (Inr repo_path, w1) \<Rightarrow> (tree_at w1 repo_path, w1))"

definition git_directory_structure :: "env \<Rightarrow> world \<Rightarrow> string \<Rightarrow> (exn + string) \<times> world" where
  "git_directory_structure env w repo_url =
     try_except (directory_structure_body env w repo_url) (\<lambda>e. ''Error: '' @ str e)"

text \<open>
  The loop of \<open>git_read_important_files\<close> over \<open>file_paths\<close>, with the dictionary
  \<open>results\<close> it fills. The inner \<open>try\<close> catches what opening and reading raise.
\<close>

fun read_files_loop ::
  "world \<Rightarrow> path \<Rightarrow> string list \<Rightarrow> (string \<Rightarrow> string option) \<Rightarrow> (string \<Rightarrow> string option)" where
  "read_files_loop w repo_path [] results = results"
| "read_files_loop w repo_path (file_path # rest) results =
     (let full_path = os_path_join repo_path file_path
      in if \<not> os_path_isfile w full_path
         then read_files_loop w repo_path rest (results(file_path \<mapsto> ''Error: File not found''))
         else (case open_read w full_path of
                 Inr text \<Rightarrow> read_files_loop w repo_path rest (results(file_path \<mapsto> text))
               | Inl e \<Rightarrow>
                   read_files_loop w repo_path rest
                     (results(file_path \<mapsto> ''Error reading file: '' @ str e))))"

definition read_important_files_body ::
  "env \<Rightarrow> world \<Rightarrow> string \<Rightarrow> string list \<Rightarrow> (exn + (string \<Rightarrow> string option)) \<times> world" where
  "read_important_files_body env w repo_url file_paths =
     (case clone_repo env w repo_url of
        (Inl e, w1) \<Rightarrow> (Inl e, w1)
      | (Inr repo_path, w1) \<Rightarrow> (Inr (read_files_loop w1 repo_path file_paths Map.empty), w1))"

definition git_read_important_files ::
  "env \<Rightarrow> world \<Rightarrow> string \<Rightarrow> string list \<Rightarrow> (exn + (string \<Rightarrow> string option)) \<times> world" where
  "git_read_important_files env w repo_url file_paths =
     try_except (read_important_files_body env w repo_url file_paths)
       (\<lambda>e. [''error'' \<mapsto> ''Failed to process repository: '' @ str e])"

definition write_file_body ::
  "env \<Rightarrow> world \<Rightarrow> string \<Rightarrow> string \<Rightarrow> string \<Rightarrow> (exn + (string \<Rightarrow> string option)) \<times> world" where
  "write_file_body env w repo_url file_path content =
     (case clone_repo env w repo_url of
        (Inl e, w1) \<Rightarrow> (Inl e, w1)
      | (Inr repo_path, w1) \<Rightarrow>
          let full_path = os_path_join repo_path file_path
          in case os_makedirs w1 (os_path_dirname full_path) of
               Inl e \<Rightarrow> (Inl e, w1)
             | Inr w2 \<Rightarrow>
                 (case open_write w2 full_path content of
                    Inl e \<Rightarrow> (Inl e, w2)
                  | Inr w3 \<Rightarrow>
                      (Inr [''status'' \<mapsto> ''success'',
                            ''message'' \<mapsto> ''Successfully wrote content to '' @ file_path,
                            ''file_path'' \<mapsto> file_path], w3)))"

definition git_write_file ::
  "env \<Rightarrow> world \<Rightarrow> string \<Rightarrow> string \<Rightarrow> string \<Rightarrow> (exn + (string \<Rightarrow> string option)) \<times> world" where
  "git_write_file env w repo_url file_path content =
     try_except (write_file_body env w repo_url file_path content)
       (\<lambda>e. [''status'' \<mapsto> ''error'',
             ''message'' \<mapsto> ''Failed to write file: '' @ str e,
             ''file_path'' \<mapsto> file_path])"

section \<open>Properties of lines\<close>

text \<open>
  A line is terminated when it ends with a line feed and holds no other one. A list of
  lines is proper when every line but the last is terminated and the last is not empty
  and holds no line feed before its end: these are the lists \<open>readlines\<close> returns.
\<close>

definition terminated :: "string \<Rightarrow> bool" where
  "terminated l = (l \<noteq> [] \<and> last l = LF \<and> LF \<notin> set (butlast l))"

definition proper_lines :: "string list \<Rightarrow> bool" where
  "proper_lines ls = (list_all terminated (butlast ls) \<and>
      (ls \<noteq> [] \<longrightarrow> last ls \<noteq> [] \<and> LF \<notin> set (butlast (last ls))))"

section \<open>Properties of directory trees\<close>

text \<open>
  A directory tree is readable when every listing in it succeeds and no listing holds a
  name twice.
\<close>

definition subdirs :: "(string \<times> dir option) list \<Rightarrow> dir list" where
  "subdirs es = List.map_filter snd es"

function readable :: "dir \<Rightarrow> bool" where
  "readable (Denied e) = False"
| "readable (Dir es) = (distinct (map fst es) \<and> list_all readable (subdirs es))"
  by pat_completeness auto
termination
proof -
  have sub: "size d < size (Dir es)" if "d \<in> set (subdirs es)"
    for es :: "(string \<times> dir option) list" and d
    using that
    by (induction es) (auto simp: subdirs_def List.map_filter_simps split: option.splits)
  show ?thesis
    by (relation "measure size") (auto dest: sub)
qed

text \<open>
  The text of a rendered directory is cut into blocks, one for each entry emitted: the
  line of the entry (the prefix, a branch glyph, the name, a line feed) and below it
  the rendering of the entry when it is a directory. A block fits a listing when its
  glyph is one of the two branch glyphs and its lower part is the rendering of the
  subdirectory of that name, one level deeper, or empty for an entry that is no
  directory.
\<close>

fun block_text :: "string \<Rightarrow> string \<times> string \<times> string \<Rightarrow> string" where
  "block_text prefix (glyph, name, sub) = prefix @ glyph @ name @ [LF] @ sub"

fun block_name :: "string \<times> string \<times> string \<Rightarrow> string" where
  "block_name (glyph, name, sub) = name"

fun block_ok :: "(string \<times> dir option) list \<Rightarrow> string \<Rightarrow> string \<times> string \<times> string \<Rightarrow> bool" where
  "block_ok es prefix (glyph, name, sub) =
     ((glyph = branch_mid \<or> glyph = branch_last) \<and>
      (case map_of es name of
         Some (Some d) \<Rightarrow>
           get_directory_tree d (prefix @ indent_bar) = Inr sub
           \<or> get_directory_tree d (prefix @ indent_blank) = Inr sub
       | _ \<Rightarrow> sub = []))"

text \<open>
  Two listings show the same directory when they hold the same names, in any order,
  each name once, and under each name the same kind of entry, subdirectories being the
  same directory in turn.
\<close>

inductive same_dir :: "dir \<Rightarrow> dir \<Rightarrow> bool" where
  denied: "same_dir (Denied e) (Denied e)"
| listing: "set (map fst es) = set (map fst es') \<Longrightarrow> distinct (map fst es) \<Longrightarrow>
            distinct (map fst es') \<Longrightarrow>
            (\<And>n. n \<in> set (map fst es) \<Longrightarrow>
               (map_of es n = Some None \<and> map_of es' n = Some None)
               \<or> (\<exists>d d'. map_of es n = Some (Some d) \<and> map_of es' n = Some (Some d')
                      \<and> same_dir d d')) \<Longrightarrow>
            same_dir (Dir es) (Dir es')"

section \<open>What a read leaves in the result\<close>

text \<open>
  The string that \<open>git_read_important_files\<close> stores for a path, by what the world
  holds at the joined path: the marker of a missing file, the marker of a failed read
  with its cause, or the text of the file as the text layer hands it over.
\<close>

fun read_outcome :: "fobj option \<Rightarrow> string" where
  "read_outcome None = ''Error: File not found''"
| "read_outcome (Some (Unreadable e)) = ''Error reading file: '' @ str e"
| "read_outcome (Some (Regular b)) = universal_newlines b"

section \<open>Worlds used as examples\<close>

definition empty_world :: world where
  "empty_world =
     \<lparr>dirs = (\<lambda>p. None), files = (\<lambda>p. None), repos = (\<lambda>p. None),
      oserror = (\<lambda>p. Exception (''[Errno 2] No such file or directory: '' @ p)),
      makedirs_error = (\<lambda>p. None), open_w_error = (\<lambda>p. None),
      rmtree_fails = (\<lambda>p. False)\<rparr>"

definition notes_world :: world where
  "notes_world =
     empty_world\<lparr>files := [''notes.txt'' \<mapsto> Regular ''one\<newline>two\<newline>three\<newline>four\<newline>five\<newline>'']\<rparr>"

definition crlf_world :: world where
  "crlf_world =
     empty_world\<lparr>files := [''notes.txt'' \<mapsto>
        Regular (''a'' @ [CR, LF] @ ''b'' @ [CR, LF] @ ''c'' @ [CR, LF])]\<rparr>"

definition open_end_world :: world where
  "open_end_world = empty_world\<lparr>files := [''notes.txt'' \<mapsto> Regular ''a\<newline>b'']\<rparr>"

definition demo_tree :: dir where
  "demo_tree =
     Dir [(''src'', Some (Dir [(''main.py'', None), (''.gitkeep'', None)])),
          (''README.md'', None),
          (''.git'', Some (Dir [(''HEAD'', None)])),
          (''.gitignore'', None)]"

definition demo_tree_relisted :: dir where
  "demo_tree_relisted =
     Dir [(''.gitignore'', None),
          (''README.md'', None),
          (''.git'', Some (Dir [(''HEAD'', None)])),
          (''src'', Some (Dir [(''.gitkeep'', None), (''main.py'', None)]))]"

definition demo_url :: string where
  "demo_url = ''https://github.com/example/repo''"

definition demo_cache :: path where
  "demo_cache = ''/tmp/github_tools_ffc8e3beb425''"

text \<open>
  The digests of the two addresses used below, so that the cache directory of
  \<open>demo_url\<close> is \<open>demo_cache\<close>.
\<close>

definition demo_sha256 :: "string \<Rightarrow> string" where
  "demo_sha256 u =
     (if u = ''https://github.com/example/repo''
      then ''ffc8e3beb425c663729fdf152974b9c30d737aae0dbd74b69d59eda7bcb447ff''
      else ''79d6b72c583a82030b3002cc020500bb8cdd48414acb0e524f8f52d89b44384d'')"

text \<open>
  A clone that behaves as \<open>git clone\<close> does on a directory: it refuses a directory that
  is not empty, and fills an empty one.
\<close>

definition git_clone :: "string \<Rightarrow> path \<Rightarrow> world \<Rightarrow> exn option \<times> world" where
  "git_clone url p w =
     (if dirs w p = Some (Dir [])
      then (None, w\<lparr>dirs := (dirs w)(p \<mapsto> Dir [(''.git'', Some (Dir [])), (''README.md'', None)]),
                     repos := (repos w)(p \<mapsto> \<lparr>bare = False, origin = Some url\<rparr>)\<rparr>)
      else (Some (Exception ''destination path already exists and is not an empty directory''), w))"

text \<open>A clone that fails half way, leaving the start of a repository behind.\<close>

definition broken_clone :: "string \<Rightarrow> path \<Rightarrow> world \<Rightarrow> exn option \<times> world" where
  "broken_clone url p w =
     (Some (Exception ''Could not resolve host: github.com''),
      w\<lparr>dirs := (dirs w)(p \<mapsto> Dir [(''.git'', Some (Dir []))])\<rparr>)"

definition demo_env :: env where
  "demo_env = \<lparr>sha256_hexdigest = demo_sha256, gettempdir = ''/tmp'', clone_from = git_clone\<rparr>"

definition offline_env :: env where
  "offline_env = \<lparr>sha256_hexdigest = demo_sha256, gettempdir = ''/tmp'', clone_from = broken_clone\<rparr>"

text \<open>
  A cache directory that holds a clone recorded with another origin; a world in which
  no tree can be deleted; a local directory with a text file and a file that does not
  decode.
\<close>

definition stale_world :: world where
  "stale_world =
     empty_world\<lparr>dirs := [''/tmp/github_tools_ffc8e3beb425'' \<mapsto> Dir [(''.git'', Some (Dir [])), (''LICENSE'', None)]],
                 repos := [''/tmp/github_tools_ffc8e3beb425'' \<mapsto>
                             \<lparr>bare = False, origin = Some ''https://github.com/example/other''\<rparr>]\<rparr>"

definition locked_world :: world where
  "locked_world = empty_world\<lparr>rmtree_fails := (\<lambda>p. True)\<rparr>"

definition docs_world :: world where
  "docs_world =
     empty_world\<lparr>dirs := [''/srv/docs'' \<mapsto> Dir [(''exists.txt'', None), (''blob.bin'', None)]],
                 files := [''/srv/docs/exists.txt'' \<mapsto> Regular ''hello\<newline>'',
                           ''/srv/docs/blob.bin'' \<mapsto>
                             Unreadable (Exception ''invalid start byte'')]\<rparr>"

definition dos_docs_world :: world where
  "dos_docs_world =
     empty_world\<lparr>dirs := [''/srv/docs'' \<mapsto> Dir [(''dos.txt'', None)]],
                 files := [''/srv/docs/dos.txt'' \<mapsto> Regular (''a'' @ [CR, LF] @ ''b'')]\<rparr>"

section \<open>The text layer, proved\<close>

lemma concat_readlines: "concat (readlines s) = s"
  by (induction s) (auto split: list.splits)

lemma readlines_Nil_iff: "readlines s = [] \<longleftrightarrow> s = []"
  by (cases s) (auto split: list.splits)

lemma universal_newlines_id: "CR \<notin> set s \<Longrightarrow> universal_newlines s = s"
  by (induction s rule: universal_newlines.induct) auto

lemma terminated_Cons: "terminated (c # l) \<longleftrightarrow> (if l = [] then c = LF else c \<noteq> LF \<and> terminated l)"
  by (auto simp: terminated_def)

lemma readlines_terminated_Cons:
  "terminated l \<Longrightarrow> readlines (l @ s) = l # readlines s"
proof (induction l)
  case Nil
  then show ?case by (simp add: terminated_def)
next
  case (Cons c l)
  then show ?case by (cases "l = []") (auto simp: terminated_Cons)
qed

lemma readlines_no_LF:
  "l \<noteq> [] \<Longrightarrow> LF \<notin> set l \<Longrightarrow> readlines l = [l]"
proof (induction l)
  case Nil
  then show ?case by simp
next
  case (Cons c l)
  then show ?case by (cases "l = []") auto
qed

lemma readlines_last_line:
  "l \<noteq> [] \<Longrightarrow> LF \<notin> set (butlast l) \<Longrightarrow> readlines l = [l]"
proof (cases "last l = LF")
  case True
  assume "l \<noteq> []" "LF \<notin> set (butlast l)"
  with True have "terminated l" by (simp add: terminated_def)
  from readlines_terminated_Cons [OF this, of "[]"] show ?thesis by simp
next
  case False
  assume a: "l \<noteq> []" "LF \<notin> set (butlast l)"
  from a(1) have eq: "butlast l @ [last l] = l" by (rule append_butlast_last_id)
  from a(2) False have "LF \<notin> set (butlast l @ [last l])" by simp
  then have "LF \<notin> set l" unfolding eq .
  with a show ?thesis by (simp add: readlines_no_LF)
qed

lemma readlines_concat_proper:
  "proper_lines ls \<Longrightarrow> readlines (concat ls) = ls"
proof (induction ls)
  case Nil
  then show ?case by simp
next
  case (Cons l ls)
  show ?case
  proof (cases "ls = []")
    case True
    with Cons.prems show ?thesis by (simp add: proper_lines_def readlines_last_line)
  next
    case False
    with Cons.prems have t: "terminated l" and p: "proper_lines ls"
      by (auto simp: proper_lines_def)
    from Cons.IH [OF p] t show ?thesis by (simp add: readlines_terminated_Cons)
  qed
qed

lemma proper_readlines: "proper_lines (readlines s)"
proof (induction s)
  case Nil
  then show ?case by (simp add: proper_lines_def)
next
  case (Cons c s)
  then show ?case
    by (auto simp: proper_lines_def terminated_def split: list.splits if_splits)
qed

lemma line_boundary_LF: "line_boundary (c # s) = 0 \<Longrightarrow> c \<noteq> LF"
  by (auto simp: line_boundary_def split: if_splits)

lemma splitlines_from_no_LF:
  "LF \<notin> set cur \<Longrightarrow> l \<in> set (splitlines_from k cur s) \<Longrightarrow> LF \<notin> set l"
proof (induction k cur s rule: splitlines_from.induct)
  case (1 skip cur)
  then show ?case by (auto split: if_splits)
next
  case (2 k cur c s)
  then show ?case by simp
next
  case (3 cur c s)
  show ?case
  proof (cases "line_boundary (c # s) = 0")
    case True
    with 3 show ?thesis by (auto dest: line_boundary_LF)
  next
    case False
    with 3 show ?thesis by (auto simp: Let_def)
  qed
qed

lemma splitlines_no_LF: "l \<in> set (splitlines s) \<Longrightarrow> LF \<notin> set l"
  unfolding splitlines_def by (rule splitlines_from_no_LF [of "[]"]) simp_all

lemma new_lines_terminated:
  "list_all terminated (map (\<lambda>line. line @ [LF]) (splitlines content))"
  by (auto simp: list_all_iff terminated_def dest: splitlines_no_LF)

lemma terminated_imp_proper: "list_all terminated ls \<Longrightarrow> proper_lines ls"
proof (cases "ls = []")
  case True
  then show ?thesis by (simp add: proper_lines_def)
next
  case False
  assume t: "list_all terminated ls"
  with False have "terminated (last ls)" by (simp add: list_all_iff)
  with t show ?thesis
    by (auto simp: proper_lines_def list_all_iff terminated_def dest: in_set_butlastD)
qed

lemma proper_lines_append:
  "list_all terminated xs \<Longrightarrow> proper_lines ys \<Longrightarrow> proper_lines (xs @ ys)"
proof (cases "ys = []")
  case True
  assume "list_all terminated xs"
  with True show ?thesis by (simp add: terminated_imp_proper)
next
  case False
  assume "list_all terminated xs" "proper_lines ys"
  with False show ?thesis
    by (auto simp: proper_lines_def butlast_append list_all_iff)
qed

lemma proper_lines_drop: "proper_lines ls \<Longrightarrow> proper_lines (drop k ls)"
  by (auto simp: proper_lines_def list_all_iff butlast_drop dest: in_set_dropD)

lemma proper_lines_take:
  "proper_lines ls \<Longrightarrow> k < length ls \<Longrightarrow> list_all terminated (take k ls)"
proof -
  assume p: "proper_lines ls" and k: "k < length ls"
  then have "take k ls = take k (butlast ls)"
    by (simp add: take_butlast)
  with p show ?thesis
    by (auto simp: proper_lines_def list_all_iff dest: in_set_takeD)
qed

lemma proper_lines_cases:
  "proper_lines ls \<Longrightarrow> list_all terminated ls \<or> (ls \<noteq> [] \<and> \<not> terminated (last ls))"
proof (cases "ls = []")
  case True
  then show ?thesis by simp
next
  case False
  assume p: "proper_lines ls"
  from False have eq: "butlast ls @ [last ls] = ls" by (rule append_butlast_last_id)
  have "list_all terminated (butlast ls @ [last ls]) \<longleftrightarrow>
          list_all terminated (butlast ls) \<and> terminated (last ls)"
    by simp
  then have "list_all terminated ls \<longleftrightarrow> list_all terminated (butlast ls) \<and> terminated (last ls)"
    unfolding eq .
  with p False show ?thesis by (auto simp: proper_lines_def)
qed

lemma all_terminated_iff: "list_all terminated (readlines t) \<longleftrightarrow> (t = [] \<or> last t = LF)"
proof (induction t)
  case Nil
  then show ?case by simp
next
  case (Cons c s)
  show ?case
  proof (cases "c = LF")
    case True
    with Cons show ?thesis by (auto simp: terminated_def)
  next
    case False
    show ?thesis
    proof (cases "readlines s")
      case Nil
      then have "s = []" by (simp add: readlines_Nil_iff)
      with False show ?thesis by (simp add: terminated_def)
    next
      case (Cons l ls)
      then have "s \<noteq> []" by auto
      with Cons Cons.IH False show ?thesis
        by (auto simp: terminated_Cons terminated_def)
    qed
  qed
qed

lemma concat_terminated_end:
  "list_all terminated ls \<Longrightarrow> ls \<noteq> [] \<Longrightarrow> concat ls \<noteq> [] \<and> last (concat ls) = LF"
proof (induction ls)
  case Nil
  then show ?case by simp
next
  case (Cons l ls)
  then show ?case by (cases "ls = []") (auto simp: terminated_def)
qed

lemma proper_lines_butlast: "proper_lines ls \<Longrightarrow> list_all terminated (butlast ls)"
  by (simp add: proper_lines_def)

lemma slice_index_le: "slice_index i n \<le> n"
  by (auto simp: slice_index_def)

lemma slice_assign_inside:
  assumes "1 \<le> s" and "s \<le> e" and "e \<le> int (length xs)"
  shows "slice_assign xs (max 0 (s - 1)) (min (int (length xs)) e) ys =
           take (nat (s - 1)) xs @ ys @ drop (nat e) xs"
proof -
  from assms have a: "slice_index (max 0 (s - 1)) (length xs) = nat (s - 1)"
    by (auto simp: slice_index_def)
  from assms have b: "slice_index (min (int (length xs)) e) (length xs) = nat e"
    by (auto simp: slice_index_def)
  from assms have "max (nat (s - 1)) (nat e) = nat e" by simp
  with a b show ?thesis by (simp add: slice_assign_def Let_def)
qed

lemma slice_assign_beyond:
  assumes "int (length xs) < s"
  shows "slice_assign xs (max 0 (s - 1)) j ys = xs @ ys"
proof -
  from assms have a: "slice_index (max 0 (s - 1)) (length xs) = length xs"
    by (auto simp: slice_index_def)
  have "slice_index j (length xs) \<le> length xs" by (rule slice_index_le)
  then have "max (length xs) (slice_index j (length xs)) = length xs" by simp
  with a show ?thesis by (simp add: slice_assign_def Let_def)
qed

section \<open>The file writer, proved\<close>

lemma modify_range_result:
  assumes "files w file_path = Some (Regular b)" and "open_w_error w file_path = None"
  shows "modify_file_content w file_path content (Some s) (Some e) =
           Inr (w\<lparr>files := (files w)(file_path \<mapsto> Regular (concat
                  (slice_assign (readlines (universal_newlines b)) (max 0 (s - 1))
                     (min (int (length (readlines (universal_newlines b)))) e)
                     (map (\<lambda>line. line @ [LF]) (splitlines content)))))\<rparr>)"
  using assms by (simp add: modify_file_content_def open_read_def open_write_def Let_def)

text \<open>
  C2, as amended. A line-range write with \<open>1 \<le> start \<le> end \<le> n\<close> on a readable file
  of \<open>n\<close> lines leaves a file whose lines are the lines before \<open>start\<close>, then the lines
  of the new content, each with a line feed, then the lines after \<open>end\<close>. The lines kept
  are the lines as the text layer read them, with \<open>\r\n\<close> and \<open>\r\<close> turned into \<open>\n\<close>; in
  a file without a carriage return they are the file's own lines, byte for byte.
\<close>

theorem modify_range_frame:
  assumes "files w file_path = Some (Regular b)" and "open_w_error w file_path = None"
    and "1 \<le> s" and "s \<le> e" and "e \<le> int (length (readlines (universal_newlines b)))"
  shows "\<exists>b'. modify_file_content w file_path content (Some s) (Some e) =
                 Inr (w\<lparr>files := (files w)(file_path \<mapsto> Regular b')\<rparr>)
            \<and> readlines b' =
                 take (nat (s - 1)) (readlines (universal_newlines b))
                 @ map (\<lambda>line. line @ [LF]) (splitlines content)
                 @ drop (nat e) (readlines (universal_newlines b))
            \<and> (CR \<notin> set b \<longrightarrow>
                 readlines b' =
                   take (nat (s - 1)) (readlines b)
                   @ map (\<lambda>line. line @ [LF]) (splitlines content)
                   @ drop (nat e) (readlines b))"
proof -
  let ?L = "readlines (universal_newlines b)"
  let ?N = "map (\<lambda>line. line @ [LF]) (splitlines content)"
  let ?R = "take (nat (s - 1)) ?L @ ?N @ drop (nat e) ?L"
  have res: "modify_file_content w file_path content (Some s) (Some e) =
               Inr (w\<lparr>files := (files w)(file_path \<mapsto> Regular (concat ?R))\<rparr>)"
    using assms by (simp only: modify_range_result slice_assign_inside)
  have pL: "proper_lines ?L" by (rule proper_readlines)
  from assms have "nat (s - 1) < length ?L" by simp
  with pL have t1: "list_all terminated (take (nat (s - 1)) ?L)" by (rule proper_lines_take)
  have t2: "list_all terminated ?N" by (rule new_lines_terminated)
  from pL have p3: "proper_lines (drop (nat e) ?L)" by (rule proper_lines_drop)
  from t2 p3 have "proper_lines (?N @ drop (nat e) ?L)" by (rule proper_lines_append)
  with t1 have "proper_lines ?R" by (rule proper_lines_append)
  then have rl: "readlines (concat ?R) = ?R" by (rule readlines_concat_proper)
  have "CR \<notin> set b \<longrightarrow> readlines (concat ?R) =
          take (nat (s - 1)) (readlines b) @ ?N @ drop (nat e) (readlines b)"
  proof
    assume "CR \<notin> set b"
    then have eq: "universal_newlines b = b" by (rule universal_newlines_id)
    from rl show "readlines (concat ?R) =
          take (nat (s - 1)) (readlines b) @ ?N @ drop (nat e) (readlines b)"
      unfolding eq .
  qed
  with res rl show ?thesis by blast
qed

theorem modify_range_frame_witness:
  "files notes_world ''notes.txt'' = Some (Regular ''one\<newline>two\<newline>three\<newline>four\<newline>five\<newline>'')
   \<and> CR \<notin> set ''one\<newline>two\<newline>three\<newline>four\<newline>five\<newline>''
   \<and> (2::int) \<le> 3
   \<and> 3 \<le> int (length (readlines (universal_newlines ''one\<newline>two\<newline>three\<newline>four\<newline>five\<newline>'')))
   \<and> (\<exists>b'. modify_file_content notes_world ''notes.txt'' ''TWO\<newline>THREE'' (Some 2) (Some 3) =
               Inr (notes_world\<lparr>files := (files notes_world)(''notes.txt'' \<mapsto> Regular b')\<rparr>)
          \<and> readlines b' = [''one\<newline>'', ''TWO\<newline>'', ''THREE\<newline>'', ''four\<newline>'', ''five\<newline>''])"
proof -
  have f: "files notes_world ''notes.txt'' = Some (Regular ''one\<newline>two\<newline>three\<newline>four\<newline>five\<newline>'')"
    by (simp add: notes_world_def empty_world_def)
  have ok: "open_w_error notes_world ''notes.txt'' = None"
    by (simp add: notes_world_def empty_world_def)
  have n: "3 \<le> int (length (readlines (universal_newlines ''one\<newline>two\<newline>three\<newline>four\<newline>five\<newline>'')))"
    by code_simp
  have c: "take (nat (2 - 1)) (readlines (universal_newlines ''one\<newline>two\<newline>three\<newline>four\<newline>five\<newline>''))
             @ map (\<lambda>line. line @ [LF]) (splitlines ''TWO\<newline>THREE'')
             @ drop (nat 3) (readlines (universal_newlines ''one\<newline>two\<newline>three\<newline>four\<newline>five\<newline>''))
           = [''one\<newline>'', ''TWO\<newline>'', ''THREE\<newline>'', ''four\<newline>'', ''five\<newline>'']"
    by code_simp
  have nocr: "CR \<notin> set ''one\<newline>two\<newline>three\<newline>four\<newline>five\<newline>''"
    by (simp add: CR_def)
  have "(1::int) \<le> 2" and le: "(2::int) \<le> 3" by simp_all
  from modify_range_frame [OF f ok this n, of "''TWO\<newline>THREE''"] f le n nocr
  show ?thesis unfolding c by blast
qed

text \<open>
  C2 as stated fails on a file with \<open>\r\n\<close> line ends: a write to line 2 alone turns
  line 1 from \<open>a\r\n\<close> into \<open>a\n\<close>.
\<close>

theorem modify_range_crlf_counterexample:
  "modify_file_content crlf_world ''notes.txt'' ''X'' (Some 2) (Some 2) =
     Inr (crlf_world\<lparr>files := (files crlf_world)(''notes.txt'' \<mapsto> Regular ''a\<newline>X\<newline>c\<newline>'')\<rparr>)
   \<and> files crlf_world ''notes.txt'' =
       Some (Regular (''a'' @ [CR, LF] @ ''b'' @ [CR, LF] @ ''c'' @ [CR, LF]))
   \<and> length (readlines (universal_newlines (''a'' @ [CR, LF] @ ''b'' @ [CR, LF] @ ''c'' @ [CR, LF]))) = 3
   \<and> readlines (''a'' @ [CR, LF] @ ''b'' @ [CR, LF] @ ''c'' @ [CR, LF]) ! 0 = ''a'' @ [CR, LF]
   \<and> readlines ''a\<newline>X\<newline>c\<newline>'' ! 0 = ''a\<newline>''
   \<and> ''a'' @ [CR, LF] \<noteq> ''a\<newline>''"
proof -
  have f: "files crlf_world ''notes.txt'' =
       Some (Regular (''a'' @ [CR, LF] @ ''b'' @ [CR, LF] @ ''c'' @ [CR, LF]))"
    by (simp add: crlf_world_def empty_world_def)
  have ok: "open_w_error crlf_world ''notes.txt'' = None"
    by (simp add: crlf_world_def empty_world_def)
  have c: "concat (slice_assign
             (readlines (universal_newlines (''a'' @ [CR, LF] @ ''b'' @ [CR, LF] @ ''c'' @ [CR, LF])))
             (max 0 (2 - 1))
             (min (int (length (readlines (universal_newlines
                     (''a'' @ [CR, LF] @ ''b'' @ [CR, LF] @ ''c'' @ [CR, LF]))))) 2)
             (map (\<lambda>line. line @ [LF]) (splitlines ''X'')))
           = ''a\<newline>X\<newline>c\<newline>''"
    by code_simp
  have r: "modify_file_content crlf_world ''notes.txt'' ''X'' (Some 2) (Some 2) =
     Inr (crlf_world\<lparr>files := (files crlf_world)(''notes.txt'' \<mapsto> Regular ''a\<newline>X\<newline>c\<newline>'')\<rparr>)"
    using modify_range_result [OF f ok, of "''X''" 2 2] unfolding c .
  have n: "length (readlines (universal_newlines (''a'' @ [CR, LF] @ ''b'' @ [CR, LF] @ ''c'' @ [CR, LF]))) = 3"
    by code_simp
  have l1: "readlines (''a'' @ [CR, LF] @ ''b'' @ [CR, LF] @ ''c'' @ [CR, LF]) ! 0 = ''a'' @ [CR, LF]"
    by code_simp
  have l2: "readlines ''a\<newline>X\<newline>c\<newline>'' ! 0 = ''a\<newline>''"
    by code_simp
  have d: "''a'' @ [CR, LF] \<noteq> ''a\<newline>''" by code_simp
  from r f n l1 l2 d show ?thesis by blast
qed

text \<open>
  C8, as amended. After a line-range write on a readable file, every newly spliced line
  is terminated with exactly one line feed, and so is every line of the resulting file
  but possibly the last; the last line is unterminated only when it is the final line
  of the file as it was read, kept in last place, and that line had no line feed.
\<close>

theorem modify_range_line_endings:
  assumes "files w file_path = Some (Regular b)" and "open_w_error w file_path = None"
  shows "list_all terminated (map (\<lambda>line. line @ [LF]) (splitlines content))
       \<and> (\<exists>b'. modify_file_content w file_path content (Some s) (Some e) =
                  Inr (w\<lparr>files := (files w)(file_path \<mapsto> Regular b')\<rparr>)
             \<and> list_all terminated (butlast (readlines b'))
             \<and> (list_all terminated (readlines b')
                \<or> (readlines (universal_newlines b) \<noteq> []
                    \<and> \<not> terminated (last (readlines (universal_newlines b)))
                    \<and> last (readlines b') = last (readlines (universal_newlines b)))))"
proof -
  let ?L = "readlines (universal_newlines b)"
  let ?N = "map (\<lambda>line. line @ [LF]) (splitlines content)"
  define a where "a = slice_index (max 0 (s - 1)) (length ?L)"
  define c where "c = max a (slice_index (min (int (length ?L)) e) (length ?L))"
  let ?R = "take a ?L @ ?N @ drop c ?L"
  have ac: "a \<le> c" by (simp add: c_def)
  have res: "modify_file_content w file_path content (Some s) (Some e) =
               Inr (w\<lparr>files := (files w)(file_path \<mapsto> Regular (concat ?R))\<rparr>)"
    using assms by (simp add: modify_range_result slice_assign_def Let_def a_def c_def)
  have pL: "proper_lines ?L" by (rule proper_readlines)
  have tN: "list_all terminated ?N" by (rule new_lines_terminated)
  have pb: "list_all terminated (butlast (readlines (concat ?R)))"
    by (rule proper_lines_butlast) (rule proper_readlines)
  have alt: "list_all terminated (readlines (concat ?R))
       \<or> (?L \<noteq> [] \<and> \<not> terminated (last ?L) \<and> last (readlines (concat ?R)) = last ?L)"
  proof (cases "c < length ?L")
    case True
    with ac have "a < length ?L" by simp
    with pL have t1: "list_all terminated (take a ?L)" by (rule proper_lines_take)
    from pL have "proper_lines (drop c ?L)" by (rule proper_lines_drop)
    with tN have "proper_lines (?N @ drop c ?L)" by (rule proper_lines_append)
    with t1 have pR: "proper_lines ?R" by (rule proper_lines_append)
    then have rl: "readlines (concat ?R) = ?R" by (rule readlines_concat_proper)
    from True have lastR: "last ?R = last ?L" and "?L \<noteq> []" by auto
    with proper_lines_cases [OF pR] rl show ?thesis by auto
  next
    case False
    then have R: "?R = take a ?L @ ?N" by simp
    show ?thesis
    proof (cases "splitlines content = []")
      case False
      with tN have "concat ?N \<noteq> [] \<and> last (concat ?N) = LF"
        by (intro concat_terminated_end) simp_all
      with R have "last (concat ?R) = LF" by simp
      then show ?thesis by (simp only: all_terminated_iff) simp
    next
      case True
      with R have R': "?R = take a ?L" by simp
      show ?thesis
      proof (cases "a < length ?L")
        case True
        with pL have t: "list_all terminated (take a ?L)" by (rule proper_lines_take)
        then have "readlines (concat (take a ?L)) = take a ?L"
          by (intro readlines_concat_proper terminated_imp_proper)
        with t R' show ?thesis by simp
      next
        case False
        with R' have "?R = ?L" by simp
        then have "readlines (concat ?R) = ?L" by (simp add: concat_readlines)
        with proper_lines_cases [OF pL] show ?thesis by auto
      qed
    qed
  qed
  from tN res pb alt show ?thesis by blast
qed

theorem modify_range_line_endings_witness:
  "files notes_world ''notes.txt'' = Some (Regular ''one\<newline>two\<newline>three\<newline>four\<newline>five\<newline>'')
   \<and> list_all terminated (map (\<lambda>line. line @ [LF]) (splitlines ''TWO\<newline>THREE''))
   \<and> (\<exists>b'. modify_file_content notes_world ''notes.txt'' ''TWO\<newline>THREE'' (Some 2) (Some 3) =
               Inr (notes_world\<lparr>files := (files notes_world)(''notes.txt'' \<mapsto> Regular b')\<rparr>)
          \<and> list_all terminated (readlines b'))"
proof -
  have f: "files notes_world ''notes.txt'' = Some (Regular ''one\<newline>two\<newline>three\<newline>four\<newline>five\<newline>'')"
    by (simp add: notes_world_def empty_world_def)
  have ok: "open_w_error notes_world ''notes.txt'' = None"
    by (simp add: notes_world_def empty_world_def)
  have t: "terminated (last (readlines (universal_newlines ''one\<newline>two\<newline>three\<newline>four\<newline>five\<newline>'')))"
    by code_simp
  from modify_range_line_endings [OF f ok, of "''TWO\<newline>THREE''" 2 3] f t
  show ?thesis by blast
qed

text \<open>
  C8 as stated fails on a file that does not end with a line feed: after a write to
  line 1 of \<open>a\nb\<close>, the retained line \<open>b\<close> is still unterminated.
\<close>

theorem modify_range_open_end_counterexample:
  "files open_end_world ''notes.txt'' = Some (Regular ''a\<newline>b'')
   \<and> modify_file_content open_end_world ''notes.txt'' ''X'' (Some 1) (Some 1) =
       Inr (open_end_world\<lparr>files := (files open_end_world)(''notes.txt'' \<mapsto> Regular ''X\<newline>b'')\<rparr>)
   \<and> readlines ''X\<newline>b'' = [''X\<newline>'', ''b'']
   \<and> \<not> terminated ''b''"
proof -
  have f: "files open_end_world ''notes.txt'' = Some (Regular ''a\<newline>b'')"
    by (simp add: open_end_world_def empty_world_def)
  have ok: "open_w_error open_end_world ''notes.txt'' = None"
    by (simp add: open_end_world_def empty_world_def)
  have c: "concat (slice_assign (readlines (universal_newlines ''a\<newline>b'')) (max 0 (1 - 1))
             (min (int (length (readlines (universal_newlines ''a\<newline>b'')))) 1)
             (map (\<lambda>line. line @ [LF]) (splitlines ''X'')))
           = ''X\<newline>b''"
    by code_simp
  have r: "modify_file_content open_end_world ''notes.txt'' ''X'' (Some 1) (Some 1) =
       Inr (open_end_world\<lparr>files := (files open_end_world)(''notes.txt'' \<mapsto> Regular ''X\<newline>b'')\<rparr>)"
    using modify_range_result [OF f ok, of "''X''" 1 1] unfolding c .
  have l: "readlines ''X\<newline>b'' = [''X\<newline>'', ''b'']" by code_simp
  have n: "\<not> terminated ''b''" by code_simp
  from f r l n show ?thesis by blast
qed

text \<open>
  C9. When exactly one of \<open>start_line\<close> and \<open>end_line\<close> is \<open>None\<close>, \<open>modify_file_content\<close>
  does what it does with no range at all: nothing is read or spliced, the file is
  opened for writing and holds the given content afterwards, whatever was at the path
  before; the only error is the one raised by opening the file for writing.
\<close>

theorem half_range_full_replacement:
  assumes "(start_line = None) \<noteq> (end_line = None)"
  shows "modify_file_content w file_path content start_line end_line =
           modify_file_content w file_path content None None
       \<and> (open_w_error w file_path = None \<longrightarrow>
            modify_file_content w file_path content start_line end_line =
              Inr (w\<lparr>files := (files w)(file_path \<mapsto> Regular content)\<rparr>))
       \<and> (\<forall>x. open_w_error w file_path = Some x \<longrightarrow>
            modify_file_content w file_path content start_line end_line = Inl x)"
  using assms
  by (cases start_line; cases end_line) (simp_all add: modify_file_content_def open_write_def)

theorem half_range_full_replacement_witness:
  "((Some 2 :: int option) = None) \<noteq> ((None :: int option) = None)
   \<and> modify_file_content notes_world ''notes.txt'' ''new text'' (Some 2) None =
       Inr (notes_world\<lparr>files := (files notes_world)(''notes.txt'' \<mapsto> Regular ''new text'')\<rparr>)"
proof -
  have h: "((Some 2 :: int option) = None) \<noteq> ((None :: int option) = None)" by simp
  have ok: "open_w_error notes_world ''notes.txt'' = None"
    by (simp add: notes_world_def empty_world_def)
  from half_range_full_replacement [OF h, of notes_world "''notes.txt''" "''new text''"] ok h
  show ?thesis by blast
qed

text \<open>
  C10. On a readable file of \<open>n\<close> lines, a line-range write with \<open>start_line > n\<close> and any
  \<open>end_line\<close> removes no line: the file afterwards holds every line that was read, in
  order, followed by the lines of the new content, each with a line feed. Where the
  text read was empty or ended with a line feed, these are the lines of the file
  afterwards, one for one.
\<close>

theorem start_beyond_end_appends:
  assumes "files w file_path = Some (Regular b)" and "open_w_error w file_path = None"
    and "int (length (readlines (universal_newlines b))) < s"
  shows "modify_file_content w file_path content (Some s) (Some e) =
           Inr (w\<lparr>files := (files w)(file_path \<mapsto> Regular (concat
                  (readlines (universal_newlines b)
                   @ map (\<lambda>line. line @ [LF]) (splitlines content))))\<rparr>)
       \<and> (universal_newlines b = [] \<or> last (universal_newlines b) = LF \<longrightarrow>
            readlines (concat (readlines (universal_newlines b)
                               @ map (\<lambda>line. line @ [LF]) (splitlines content))) =
              readlines (universal_newlines b)
              @ map (\<lambda>line. line @ [LF]) (splitlines content))"
proof -
  let ?L = "readlines (universal_newlines b)"
  let ?N = "map (\<lambda>line. line @ [LF]) (splitlines content)"
  from assms have res: "modify_file_content w file_path content (Some s) (Some e) =
           Inr (w\<lparr>files := (files w)(file_path \<mapsto> Regular (concat (?L @ ?N)))\<rparr>)"
    by (simp only: modify_range_result slice_assign_beyond)
  have "readlines (concat (?L @ ?N)) = ?L @ ?N"
    if "universal_newlines b = [] \<or> last (universal_newlines b) = LF"
  proof -
    from that have "list_all terminated ?L" by (simp only: all_terminated_iff)
    with new_lines_terminated [of content] have "list_all terminated (?L @ ?N)" by simp
    then show ?thesis by (intro readlines_concat_proper terminated_imp_proper)
  qed
  with res show ?thesis by blast
qed

theorem start_beyond_end_appends_witness:
  "files notes_world ''notes.txt'' = Some (Regular ''one\<newline>two\<newline>three\<newline>four\<newline>five\<newline>'')
   \<and> int (length (readlines (universal_newlines ''one\<newline>two\<newline>three\<newline>four\<newline>five\<newline>''))) < 9
   \<and> last (universal_newlines ''one\<newline>two\<newline>three\<newline>four\<newline>five\<newline>'') = LF
   \<and> modify_file_content notes_world ''notes.txt'' ''six\<newline>seven'' (Some 9) (Some 2) =
       Inr (notes_world\<lparr>files := (files notes_world)(''notes.txt'' \<mapsto>
              Regular ''one\<newline>two\<newline>three\<newline>four\<newline>five\<newline>six\<newline>seven\<newline>'')\<rparr>)"
proof -
  have f: "files notes_world ''notes.txt'' = Some (Regular ''one\<newline>two\<newline>three\<newline>four\<newline>five\<newline>'')"
    by (simp add: notes_world_def empty_world_def)
  have ok: "open_w_error notes_world ''notes.txt'' = None"
    by (simp add: notes_world_def empty_world_def)
  have n: "int (length (readlines (universal_newlines ''one\<newline>two\<newline>three\<newline>four\<newline>five\<newline>''))) < 9"
    by code_simp
  have c: "concat (readlines (universal_newlines ''one\<newline>two\<newline>three\<newline>four\<newline>five\<newline>'')
             @ map (\<lambda>line. line @ [LF]) (splitlines ''six\<newline>seven''))
           = ''one\<newline>two\<newline>three\<newline>four\<newline>five\<newline>six\<newline>seven\<newline>''"
    by code_simp
  from start_beyond_end_appends [OF f ok n, of "''six\<newline>seven''" 2]
  have "modify_file_content notes_world ''notes.txt'' ''six\<newline>seven'' (Some 9) (Some 2) =
       Inr (notes_world\<lparr>files := (files notes_world)(''notes.txt'' \<mapsto>
              Regular ''one\<newline>two\<newline>three\<newline>four\<newline>five\<newline>six\<newline>seven\<newline>'')\<rparr>)"
    unfolding c by (rule conjunct1)
  moreover have "last (universal_newlines ''one\<newline>two\<newline>three\<newline>four\<newline>five\<newline>'') = LF"
    by code_simp
  ultimately show ?thesis using f n by blast
qed

section \<open>The tree renderer, proved\<close>

lemma loop_blocks:
  assumes kids: "\<And>n d p. map_of es n = Some (Some d) \<Longrightarrow> \<exists>s. get_directory_tree d p = Inr s"
  shows "\<exists>blocks. entries_loop es prefix entries i rest out =
                     Inr (out @ concat (map (block_text prefix) blocks))
           \<and> map block_name blocks = filter (\<lambda>n. \<not> startswith n ''.git'') rest
           \<and> list_all (block_ok es prefix) blocks"
proof (induction rest arbitrary: i out)
  case Nil
  show ?case by (rule exI [of _ "[]"]) simp
next
  case (Cons entry rest)
  show ?case
  proof (cases "startswith entry ''.git''")
    case True
    with Cons [of "i + 1" out] show ?thesis by simp
  next
    case False
    define g where "g = (if int i = int (length entries) - 1 then branch_last else branch_mid)"
    define nx where "nx = (if int i = int (length entries) - 1 then indent_blank else indent_bar)"
    have gg: "g = branch_mid \<or> g = branch_last" by (simp add: g_def)
    show ?thesis
    proof (cases "\<exists>d. map_of es entry = Some (Some d)")
      case True
      then obtain d where d: "map_of es entry = Some (Some d)" by blast
      from kids [OF d] obtain sub where sub: "get_directory_tree d (prefix @ nx) = Inr sub"
        by blast
      from Cons [of "i + 1" "out @ prefix @ g @ entry @ [LF] @ sub"]
      obtain blocks where b:
        "entries_loop es prefix entries (i + 1) rest (out @ prefix @ g @ entry @ [LF] @ sub) =
           Inr ((out @ prefix @ g @ entry @ [LF] @ sub) @ concat (map (block_text prefix) blocks))"
        "map block_name blocks = filter (\<lambda>n. \<not> startswith n ''.git'') rest"
        "list_all (block_ok es prefix) blocks"
        by blast
      have ok: "block_ok es prefix (g, entry, sub)"
        using gg d sub by (auto simp: nx_def split: if_splits)
      have "entries_loop es prefix entries i (entry # rest) out =
              Inr (out @ concat (map (block_text prefix) ((g, entry, sub) # blocks)))"
        using False d sub b(1) by (simp add: Let_def g_def nx_def)
      with b(2,3) ok False show ?thesis
        by (intro exI [of _ "(g, entry, sub) # blocks"]) simp
    next
      case nodir: False
      from Cons [of "i + 1" "out @ prefix @ g @ entry @ [LF]"]
      obtain blocks where b:
        "entries_loop es prefix entries (i + 1) rest (out @ prefix @ g @ entry @ [LF]) =
           Inr ((out @ prefix @ g @ entry @ [LF]) @ concat (map (block_text prefix) blocks))"
        "map block_name blocks = filter (\<lambda>n. \<not> startswith n ''.git'') rest"
        "list_all (block_ok es prefix) blocks"
        by blast
      have ok: "block_ok es prefix (g, entry, [])"
        using gg nodir by (auto split: option.splits)
      have "entries_loop es prefix entries i (entry # rest) out =
              Inr (out @ concat (map (block_text prefix) ((g, entry, []) # blocks)))"
        using False nodir b(1) by (auto simp: Let_def g_def split: option.splits)
      with b(2,3) ok False show ?thesis
        by (intro exI [of _ "(g, entry, []) # blocks"]) simp
    qed
  qed
qed

lemma child_in_subdirs: "map_of es n = Some (Some d) \<Longrightarrow> d \<in> set (subdirs es)"
  by (induction es) (auto simp: subdirs_def List.map_filter_simps split: if_splits option.splits)

lemma readable_renders: "readable d \<Longrightarrow> \<exists>s. get_directory_tree d p = Inr s"
proof (induction d arbitrary: p rule: readable.induct)
  case (1 e)
  then show ?case by simp
next
  case (2 es)
  have kids: "\<exists>s. get_directory_tree d q = Inr s" if "map_of es n = Some (Some d)" for n d q
  proof -
    from that have "d \<in> set (subdirs es)" by (rule child_in_subdirs)
    moreover with "2.prems" have "readable d" by (simp add: list_all_iff)
    ultimately show ?thesis by (rule "2.IH")
  qed
  have "\<exists>blocks. entries_loop es p (sort (map fst es)) 0 (sort (map fst es)) [] =
                     Inr ([] @ concat (map (block_text p) blocks))
           \<and> map block_name blocks = filter (\<lambda>n. \<not> startswith n ''.git'') (sort (map fst es))
           \<and> list_all (block_ok es p) blocks"
    by (rule loop_blocks) (rule kids)
  then show ?case by auto
qed

lemma loop_same:
  assumes "\<And>n. n \<in> set rest \<Longrightarrow>
             (map_of es n = Some None \<and> map_of es' n = Some None)
             \<or> (\<exists>d d'. map_of es n = Some (Some d) \<and> map_of es' n = Some (Some d')
                    \<and> (\<forall>p. get_directory_tree d p = get_directory_tree d' p))"
  shows "entries_loop es prefix entries i rest out = entries_loop es' prefix entries i rest out"
  using assms
proof (induction rest arbitrary: i out)
  case Nil
  show ?case by simp
next
  case (Cons entry rest)
  have IH: "entries_loop es prefix entries j rest o' = entries_loop es' prefix entries j rest o'"
    for j o'
    by (rule Cons.IH) (rule Cons.prems, simp)
  from Cons.prems [of entry]
  consider "map_of es entry = Some None \<and> map_of es' entry = Some None"
    | d d' where "map_of es entry = Some (Some d)" "map_of es' entry = Some (Some d')"
        "\<forall>p. get_directory_tree d p = get_directory_tree d' p"
    by auto
  then show ?case
  proof cases
    case 1
    then show ?thesis by (simp add: Let_def IH)
  next
    case 2
    then show ?thesis by (simp add: Let_def IH split: sum.splits)
  qed
qed

lemma same_dir_renders:
  "same_dir d d' \<Longrightarrow> \<forall>p. get_directory_tree d p = get_directory_tree d' p"
proof (induction rule: same_dir.induct)
  case (denied e)
  show ?case by simp
next
  case (listing es es')
  have "sorted (sort (map fst es))" "sorted (sort (map fst es'))" by simp_all
  moreover from listing(2,3) have "distinct (sort (map fst es))" "distinct (sort (map fst es'))"
    by simp_all
  moreover from listing(1) have "set (sort (map fst es)) = set (sort (map fst es'))" by simp
  ultimately have eq: "sort (map fst es) = sort (map fst es')"
    by (metis sorted_distinct_set_unique)
  have "entries_loop es p (sort (map fst es)) 0 (sort (map fst es)) [] =
        entries_loop es' p (sort (map fst es)) 0 (sort (map fst es)) []" for p
    by (rule loop_same) (use listing(4) in auto)
  with eq show ?case by simp
qed

text \<open>
  C6. For a readable directory, \<open>get_directory_tree\<close> returns a text that is a sequence
  of blocks, one for each entry whose name does not begin with \<open>.git\<close> and for no other
  name, in strictly increasing lexicographic order of the names; every block begins
  with the line of its entry, which ends with a line feed, and goes on with the
  rendering of the entry when it is a directory. The text does not depend on the order
  in which the listings come: any other listing of the same directory gives the same
  text.
\<close>

theorem directory_tree_listing:
  assumes "readable (Dir es)"
  shows "(\<exists>blocks.
            get_directory_tree (Dir es) prefix = Inr (concat (map (block_text prefix) blocks))
            \<and> sorted_wrt (<) (map block_name blocks)
            \<and> set (map block_name blocks) = {n \<in> set (map fst es). \<not> startswith n ''.git''}
            \<and> list_all (block_ok es prefix) blocks)
       \<and> (\<forall>d'. same_dir (Dir es) d' \<longrightarrow>
              get_directory_tree d' prefix = get_directory_tree (Dir es) prefix)"
proof
  let ?S = "sort (map fst es)"
  have kids: "\<exists>s. get_directory_tree d q = Inr s" if "map_of es n = Some (Some d)" for n d q
  proof -
    from that have "d \<in> set (subdirs es)" by (rule child_in_subdirs)
    with assms have "readable d" by (simp add: list_all_iff)
    then show ?thesis by (rule readable_renders)
  qed
  have "\<exists>blocks. entries_loop es prefix ?S 0 ?S [] =
                     Inr ([] @ concat (map (block_text prefix) blocks))
           \<and> map block_name blocks = filter (\<lambda>n. \<not> startswith n ''.git'') ?S
           \<and> list_all (block_ok es prefix) blocks"
    by (rule loop_blocks) (rule kids)
  then obtain blocks where b:
    "entries_loop es prefix ?S 0 ?S [] = Inr ([] @ concat (map (block_text prefix) blocks))"
    "map block_name blocks = filter (\<lambda>n. \<not> startswith n ''.git'') ?S"
    "list_all (block_ok es prefix) blocks"
    by blast
  from assms have "distinct ?S" by simp
  then have "sorted_wrt (<) ?S" by (simp add: strict_sorted_iff)
  then have s: "sorted_wrt (<) (map block_name blocks)"
    unfolding b(2) by (rule sorted_wrt_filter)
  have n: "set (map block_name blocks) = {n \<in> set (map fst es). \<not> startswith n ''.git''}"
    unfolding b(2) by auto
  from b(1) have "get_directory_tree (Dir es) prefix = Inr (concat (map (block_text prefix) blocks))"
    by simp
  with s n b(3) show "\<exists>blocks.
            get_directory_tree (Dir es) prefix = Inr (concat (map (block_text prefix) blocks))
            \<and> sorted_wrt (<) (map block_name blocks)
            \<and> set (map block_name blocks) = {n \<in> set (map fst es). \<not> startswith n ''.git''}
            \<and> list_all (block_ok es prefix) blocks"
    by blast
next
  show "\<forall>d'. same_dir (Dir es) d' \<longrightarrow>
              get_directory_tree d' prefix = get_directory_tree (Dir es) prefix"
    by (auto dest: same_dir_renders)
qed

theorem directory_tree_listing_witness:
  "readable demo_tree
   \<and> same_dir demo_tree demo_tree_relisted
   \<and> get_directory_tree demo_tree [] =
       Inr (branch_mid @ ''README.md\<newline>'' @ branch_last @ ''src\<newline>''
            @ indent_blank @ branch_last @ ''main.py\<newline>'')
   \<and> get_directory_tree demo_tree_relisted [] = get_directory_tree demo_tree []"
proof -
  have r: "readable demo_tree" unfolding demo_tree_def by code_simp
  have src: "same_dir (Dir [(''main.py'', None), (''.gitkeep'', None)])
                      (Dir [(''.gitkeep'', None), (''main.py'', None)])"
    by (rule same_dir.listing) auto
  have git: "same_dir (Dir [(''HEAD'', None)]) (Dir [(''HEAD'', None)])"
    by (rule same_dir.listing) auto
  have sd: "same_dir demo_tree demo_tree_relisted"
    unfolding demo_tree_def demo_tree_relisted_def
    by (rule same_dir.listing) (use src git in auto)
  have out: "get_directory_tree demo_tree [] =
       Inr (branch_mid @ ''README.md\<newline>'' @ branch_last @ ''src\<newline>''
            @ indent_blank @ branch_last @ ''main.py\<newline>'')"
    unfolding demo_tree_def by code_simp
  from r sd directory_tree_listing [of _ "[]"]
  have "get_directory_tree demo_tree_relisted [] = get_directory_tree demo_tree []"
    unfolding demo_tree_def by blast
  with r sd out show ?thesis by blast
qed

text \<open>
  C7: the last emitted entry of a directory is drawn with the terminal glyph, every
  other emitted entry with the glyph of an entry that is not the last. The code aims
  at this with \<open>is_last\<close> and misses it: \<open>is_last\<close> compares the index of an entry with
  the length of the whole sorted listing, the skipped \<open>.git\<close> names included, so when the
  listing ends with a skipped name no emitted entry gets the terminal glyph. In a
  directory holding \<open>.env\<close> and \<open>.gitignore\<close>, the only emitted entry, \<open>.env\<close>, is drawn
  with the glyph of an entry that is not the last.
\<close>

theorem last_entry_glyph_before_skipped_name:
  "get_directory_tree (Dir [(''.env'', None), (''.gitignore'', None)]) [] =
     Inr (branch_mid @ ''.env\<newline>'')"
  by code_simp

section \<open>The workspace resolver, proved\<close>

lemma demo_cache_dir:
  "cache_dir demo_env demo_url = demo_cache" "cache_dir offline_env demo_url = demo_cache"
  by (simp_all add: cache_dir_def demo_env_def offline_env_def demo_url_def demo_cache_def
        demo_sha256_def os_path_join_def startswith_def)

lemma demo_url_remote: "startswith demo_url ''https://github.com/''"
  by (simp add: demo_url_def startswith_def)

lemma rmtree_gone:
  "\<not> rmtree_fails w p \<Longrightarrow>
     dirs (shutil_rmtree w p) p = None \<and> repos (shutil_rmtree w p) p = None
     \<and> (\<forall>q. below p q \<longrightarrow> dirs (shutil_rmtree w p) q = None
                          \<and> files (shutil_rmtree w p) q = None
                          \<and> repos (shutil_rmtree w p) q = None)"
  by (simp add: shutil_rmtree_def)

lemma clone_repo_clone_raises:
  assumes "startswith repo_url ''https://github.com/'' \<or> \<not> os_path_exists w repo_url"
    and "existing_cache w (cache_dir env repo_url) repo_url = Continue w0"
    and "os_makedirs w0 (cache_dir env repo_url) = Inr w1"
    and "clone_from env repo_url (cache_dir env repo_url) w1 = (Some e, w2)"
  shows "clone_repo env w repo_url =
           (Inl (Exception (''Failed to clone repository: '' @ str e)),
            shutil_rmtree w2 (cache_dir env repo_url))"
  using assms by (auto simp: clone_repo_def clone_fresh_def Let_def)

lemma existing_cache_other_origin:
  assumes "os_path_exists w temp_dir" and "repos w temp_dir = Some r"
    and "bare r \<or> (\<exists>url. origin r = Some url \<and> url \<noteq> repo_url)"
  shows "existing_cache w temp_dir repo_url = Continue w"
  using assms by (auto simp: existing_cache_def)

lemma clone_repo_reuse:
  assumes "startswith repo_url ''https://github.com/'' \<or> \<not> os_path_exists w repo_url"
    and "os_path_exists w (cache_dir env repo_url)"
    and "repos w (cache_dir env repo_url) = Some r"
    and "\<not> bare r" and "origin r = Some repo_url"
  shows "clone_repo env w repo_url = (Inr (cache_dir env repo_url), w)"
  using assms by (auto simp: clone_repo_def existing_cache_def Let_def)

lemma existing_cache_raises_removed:
  assumes "os_path_exists w temp_dir"
    and "repos w temp_dir = None \<or> (\<exists>r. repos w temp_dir = Some r \<and> \<not> bare r \<and> origin r = None)"
  shows "existing_cache w temp_dir repo_url = Continue (shutil_rmtree w temp_dir)"
  using assms by (auto simp: existing_cache_def)

text \<open>
  C1: an existing cache directory is returned as it is when it opens as a repository
  that is not bare and records the locator as its origin, and is otherwise deleted and
  acquired afresh. The code does the first part, and the second only in the bare
  \<open>except\<close>, that is when opening the repository or reading its remote raises. When the
  repository opens and is bare, or records another origin, nothing raises and nothing
  is removed: the clone is attempted into the directory as it stands. With a clone
  that refuses a directory that is not empty, as \<open>git clone\<close> does, the call fails
  instead of acquiring afresh.
\<close>

theorem stale_cache_not_reacquired:
  "dirs stale_world demo_cache = Some (Dir [(''.git'', Some (Dir [])), (''LICENSE'', None)])
   \<and> repos stale_world demo_cache =
       Some \<lparr>bare = False, origin = Some ''https://github.com/example/other''\<rparr>
   \<and> existing_cache stale_world (cache_dir demo_env demo_url) demo_url = Continue stale_world
   \<and> fst (clone_repo demo_env stale_world demo_url) =
       Inl (Exception ''Failed to clone repository: destination path already exists and is not an empty directory'')"
proof -
  have d: "dirs stale_world demo_cache = Some (Dir [(''.git'', Some (Dir [])), (''LICENSE'', None)])"
    by (simp add: stale_world_def demo_cache_def)
  then have e: "os_path_exists stale_world demo_cache"
    by (simp add: os_path_exists_def)
  have r: "repos stale_world demo_cache =
       Some \<lparr>bare = False, origin = Some ''https://github.com/example/other''\<rparr>"
    by (simp add: stale_world_def demo_cache_def)
  have c: "existing_cache stale_world (cache_dir demo_env demo_url) demo_url = Continue stale_world"
    unfolding demo_cache_dir
    by (rule existing_cache_other_origin [OF e r]) (simp add: demo_url_def)
  have m: "os_makedirs stale_world demo_cache = Inr stale_world"
    by (simp add: os_makedirs_def stale_world_def empty_world_def demo_cache_def)
  have g: "clone_from demo_env demo_url demo_cache stale_world =
             (Some (Exception ''destination path already exists and is not an empty directory''),
              stale_world)"
    by (simp add: demo_env_def git_clone_def stale_world_def demo_cache_def)
  have "fst (clone_repo demo_env stale_world demo_url) =
       Inl (Exception ''Failed to clone repository: destination path already exists and is not an empty directory'')"
    using c m g by (simp add: clone_repo_def clone_fresh_def demo_url_remote demo_cache_dir Let_def)
  with d r c show ?thesis by blast
qed

text \<open>
  C4, as amended. When the clone into the cache directory raises, \<open>clone_repo\<close> calls
  \<open>shutil.rmtree\<close> on the cache directory, errors ignored, and raises an exception whose
  text is \<open>Failed to clone repository: \<close> followed by the text of the cause. The cache
  directory and everything below it are gone after the call unless that deletion itself
  fails.
\<close>

theorem failed_clone_cleanup:
  assumes "startswith repo_url ''https://github.com/'' \<or> \<not> os_path_exists w repo_url"
    and "existing_cache w (cache_dir env repo_url) repo_url = Continue w0"
    and "os_makedirs w0 (cache_dir env repo_url) = Inr w1"
    and "clone_from env repo_url (cache_dir env repo_url) w1 = (Some e, w2)"
  shows "clone_repo env w repo_url =
           (Inl (Exception (''Failed to clone repository: '' @ str e)),
            shutil_rmtree w2 (cache_dir env repo_url))
       \<and> (\<not> rmtree_fails w2 (cache_dir env repo_url) \<longrightarrow>
             dirs (shutil_rmtree w2 (cache_dir env repo_url)) (cache_dir env repo_url) = None
             \<and> (\<forall>q. below (cache_dir env repo_url) q \<longrightarrow>
                    dirs (shutil_rmtree w2 (cache_dir env repo_url)) q = None
                    \<and> files (shutil_rmtree w2 (cache_dir env repo_url)) q = None))"
  using clone_repo_clone_raises [OF assms] rmtree_gone [of w2 "cache_dir env repo_url"]
  by blast

theorem failed_clone_cleanup_witness:
  "startswith demo_url ''https://github.com/''
   \<and> existing_cache empty_world (cache_dir offline_env demo_url) demo_url = Continue empty_world
   \<and> \<not> rmtree_fails empty_world demo_cache
   \<and> fst (clone_repo offline_env empty_world demo_url) =
       Inl (Exception ''Failed to clone repository: Could not resolve host: github.com'')
   \<and> dirs (snd (clone_repo offline_env empty_world demo_url)) demo_cache = None"
proof -
  let ?w1 = "empty_world\<lparr>dirs := (dirs empty_world)(demo_cache \<mapsto> Dir [])\<rparr>"
  let ?w2 = "?w1\<lparr>dirs := (dirs ?w1)(demo_cache \<mapsto> Dir [(''.git'', Some (Dir []))])\<rparr>"
  have h1: "startswith demo_url ''https://github.com/'' \<or> \<not> os_path_exists empty_world demo_url"
    by (simp add: demo_url_remote)
  have h2: "existing_cache empty_world (cache_dir offline_env demo_url) demo_url = Continue empty_world"
    by (simp add: existing_cache_def os_path_exists_def empty_world_def)
  have h3: "os_makedirs empty_world (cache_dir offline_env demo_url) = Inr ?w1"
    unfolding demo_cache_dir by (simp add: os_makedirs_def empty_world_def)
  have h4: "clone_from offline_env demo_url (cache_dir offline_env demo_url) ?w1
              = (Some (Exception ''Could not resolve host: github.com''), ?w2)"
    unfolding demo_cache_dir by (simp add: offline_env_def broken_clone_def)
  have nf: "\<not> rmtree_fails ?w2 (cache_dir offline_env demo_url)"
    by (simp add: empty_world_def)
  have nf0: "\<not> rmtree_fails empty_world demo_cache" by (simp add: empty_world_def)
  from failed_clone_cleanup [OF h1 h2 h3 h4] nf
  have "fst (clone_repo offline_env empty_world demo_url) =
          Inl (Exception ''Failed to clone repository: Could not resolve host: github.com'')"
    and "dirs (snd (clone_repo offline_env empty_world demo_url)) demo_cache = None"
    by (simp_all add: demo_cache_dir)
  with demo_url_remote h2 nf0 show ?thesis by blast
qed

text \<open>
  C4 as stated fails where the deletion fails: its error is ignored, and the directory
  the failed clone left half filled is still there after the call.
\<close>

theorem failed_clone_locked_counterexample:
  "fst (clone_repo offline_env locked_world demo_url) =
     Inl (Exception ''Failed to clone repository: Could not resolve host: github.com'')
   \<and> dirs (snd (clone_repo offline_env locked_world demo_url)) demo_cache =
       Some (Dir [(''.git'', Some (Dir []))])"
proof -
  let ?w1 = "locked_world\<lparr>dirs := (dirs locked_world)(demo_cache \<mapsto> Dir [])\<rparr>"
  let ?w2 = "?w1\<lparr>dirs := (dirs ?w1)(demo_cache \<mapsto> Dir [(''.git'', Some (Dir []))])\<rparr>"
  have h1: "startswith demo_url ''https://github.com/'' \<or> \<not> os_path_exists locked_world demo_url"
    by (simp add: demo_url_remote)
  have h2: "existing_cache locked_world (cache_dir offline_env demo_url) demo_url
              = Continue locked_world"
    by (simp add: existing_cache_def os_path_exists_def locked_world_def empty_world_def)
  have h3: "os_makedirs locked_world (cache_dir offline_env demo_url) = Inr ?w1"
    unfolding demo_cache_dir by (simp add: os_makedirs_def locked_world_def empty_world_def)
  have h4: "clone_from offline_env demo_url (cache_dir offline_env demo_url) ?w1
              = (Some (Exception ''Could not resolve host: github.com''), ?w2)"
    unfolding demo_cache_dir by (simp add: offline_env_def broken_clone_def)
  have stay: "shutil_rmtree ?w2 demo_cache = ?w2"
    by (simp add: shutil_rmtree_def locked_world_def)
  from clone_repo_clone_raises [OF h1 h2 h3 h4] stay
  show ?thesis by (simp add: demo_cache_dir)
qed

section \<open>The boundary operations, proved\<close>

lemma read_files_loop_result:
  "read_files_loop w repo_path file_paths results =
     (\<lambda>k. if k \<in> set file_paths then Some (read_outcome (files w (os_path_join repo_path k)))
          else results k)"
proof (induction file_paths arbitrary: results)
  case Nil
  show ?case by simp
next
  case (Cons fp rest)
  show ?case
  proof (cases "files w (os_path_join repo_path fp)")
    case None
    then show ?thesis
      by (auto simp: Cons.IH os_path_isfile_def Let_def)
  next
    case (Some f)
    then show ?thesis
      by (cases f) (auto simp: Cons.IH os_path_isfile_def open_read_def Let_def)
  qed
qed

text \<open>
  C3, as amended. Once the workspace is resolved, \<open>git_read_important_files\<close> returns a
  mapping whose keys are exactly the requested paths. The value of a path is decided by
  that path alone: the marker \<open>Error: File not found\<close> when no regular file is at the
  joined path, \<open>Error reading file: \<close> with the text of the cause when reading it raises,
  and otherwise the whole text of the file as the text layer reads it, with \<open>\r\n\<close> and
  \<open>\r\<close> turned into \<open>\n\<close>, which is the content of the file itself when it holds no
  carriage return. No path stops the loop or changes the value of another.
\<close>

theorem read_files_one_entry_per_path:
  assumes "clone_repo env w repo_url = (Inr repo_path, w1)"
  shows "\<exists>m. git_read_important_files env w repo_url file_paths = (Inr m, w1)
           \<and> dom m = set file_paths
           \<and> (\<forall>fp \<in> set file_paths.
                 (files w1 (os_path_join repo_path fp) = None
                    \<longrightarrow> m fp = Some ''Error: File not found'')
               \<and> (\<forall>e. files w1 (os_path_join repo_path fp) = Some (Unreadable e)
                    \<longrightarrow> m fp = Some (''Error reading file: '' @ str e))
               \<and> (\<forall>b. files w1 (os_path_join repo_path fp) = Some (Regular b)
                    \<longrightarrow> m fp = Some (universal_newlines b)
                        \<and> (CR \<notin> set b \<longrightarrow> m fp = Some b)))"
proof -
  let ?m = "read_files_loop w1 repo_path file_paths Map.empty"
  from assms have r: "git_read_important_files env w repo_url file_paths = (Inr ?m, w1)"
    by (simp add: git_read_important_files_def read_important_files_body_def try_except_def)
  have d: "dom ?m = set file_paths"
    by (auto simp: read_files_loop_result split: if_splits)
  have v: "\<forall>fp \<in> set file_paths.
                 (files w1 (os_path_join repo_path fp) = None
                    \<longrightarrow> ?m fp = Some ''Error: File not found'')
               \<and> (\<forall>e. files w1 (os_path_join repo_path fp) = Some (Unreadable e)
                    \<longrightarrow> ?m fp = Some (''Error reading file: '' @ str e))
               \<and> (\<forall>b. files w1 (os_path_join repo_path fp) = Some (Regular b)
                    \<longrightarrow> ?m fp = Some (universal_newlines b)
                        \<and> (CR \<notin> set b \<longrightarrow> ?m fp = Some b))"
    by (simp add: read_files_loop_result universal_newlines_id)
  from r d v show ?thesis by blast
qed

theorem read_files_one_entry_per_path_witness:
  "clone_repo demo_env docs_world ''/srv/docs'' = (Inr ''/srv/docs'', docs_world)
   \<and> CR \<notin> set ''hello\<newline>''
   \<and> (\<exists>m. git_read_important_files demo_env docs_world ''/srv/docs''
             [''exists.txt'', ''missing.txt'', ''blob.bin''] = (Inr m, docs_world)
         \<and> dom m = {''exists.txt'', ''missing.txt'', ''blob.bin''}
         \<and> m ''exists.txt'' = Some ''hello\<newline>''
         \<and> m ''missing.txt'' = Some ''Error: File not found''
         \<and> m ''blob.bin'' = Some ''Error reading file: invalid start byte'')"
proof -
  have c: "clone_repo demo_env docs_world ''/srv/docs'' = (Inr ''/srv/docs'', docs_world)"
    by (simp add: clone_repo_def startswith_def os_path_exists_def docs_world_def)
  have f1: "files docs_world (os_path_join ''/srv/docs'' ''exists.txt'') = Some (Regular ''hello\<newline>'')"
    by (simp add: os_path_join_def startswith_def docs_world_def)
  have f2: "files docs_world (os_path_join ''/srv/docs'' ''missing.txt'') = None"
    by (simp add: os_path_join_def startswith_def docs_world_def empty_world_def)
  have f3: "files docs_world (os_path_join ''/srv/docs'' ''blob.bin'') =
              Some (Unreadable (Exception ''invalid start byte''))"
    by (simp add: os_path_join_def startswith_def docs_world_def)
  have u: "universal_newlines ''hello\<newline>'' = ''hello\<newline>''" by code_simp
  from read_files_one_entry_per_path [OF c, of "[''exists.txt'', ''missing.txt'', ''blob.bin'']"]
  obtain m where m:
    "git_read_important_files demo_env docs_world ''/srv/docs''
       [''exists.txt'', ''missing.txt'', ''blob.bin''] = (Inr m, docs_world)"
    "dom m = set [''exists.txt'', ''missing.txt'', ''blob.bin'']"
    "\<forall>fp \<in> set [''exists.txt'', ''missing.txt'', ''blob.bin''].
        (files docs_world (os_path_join ''/srv/docs'' fp) = None
           \<longrightarrow> m fp = Some ''Error: File not found'')
      \<and> (\<forall>e. files docs_world (os_path_join ''/srv/docs'' fp) = Some (Unreadable e)
           \<longrightarrow> m fp = Some (''Error reading file: '' @ str e))
      \<and> (\<forall>b. files docs_world (os_path_join ''/srv/docs'' fp) = Some (Regular b)
           \<longrightarrow> m fp = Some (universal_newlines b)
               \<and> (CR \<notin> set b \<longrightarrow> m fp = Some b))"
    by blast
  from m(3) f1 u have v1: "m ''exists.txt'' = Some ''hello\<newline>''" by simp
  from m(3) f2 have v2: "m ''missing.txt'' = Some ''Error: File not found''" by simp
  from m(3) f3 have v3: "m ''blob.bin'' = Some ''Error reading file: invalid start byte''" by simp
  from m(2) have d: "dom m = {''exists.txt'', ''missing.txt'', ''blob.bin''}" by simp
  have nocr: "CR \<notin> set ''hello\<newline>''" by (simp add: CR_def)
  from c nocr m(1) d v1 v2 v3 show ?thesis by blast
qed

text \<open>
  C3 as stated fails on a file with a \<open>\r\n\<close> line end: the value stored for a file
  holding \<open>a\r\nb\<close> is \<open>a\nb\<close>, which is not the content of the file.
\<close>

theorem read_files_dos_counterexample:
  "clone_repo demo_env dos_docs_world ''/srv/docs'' = (Inr ''/srv/docs'', dos_docs_world)
   \<and> files dos_docs_world (os_path_join ''/srv/docs'' ''dos.txt'') =
       Some (Regular (''a'' @ [CR, LF] @ ''b''))
   \<and> fst (git_read_important_files demo_env dos_docs_world ''/srv/docs'' [''dos.txt'']) =
       Inr (read_files_loop dos_docs_world ''/srv/docs'' [''dos.txt''] Map.empty)
   \<and> read_files_loop dos_docs_world ''/srv/docs'' [''dos.txt''] Map.empty ''dos.txt'' =
       Some ''a\<newline>b''
   \<and> ''a\<newline>b'' \<noteq> ''a'' @ [CR, LF] @ ''b''"
proof -
  have c: "clone_repo demo_env dos_docs_world ''/srv/docs'' = (Inr ''/srv/docs'', dos_docs_world)"
    by (simp add: clone_repo_def startswith_def os_path_exists_def dos_docs_world_def)
  have f: "files dos_docs_world (os_path_join ''/srv/docs'' ''dos.txt'') =
       Some (Regular (''a'' @ [CR, LF] @ ''b''))"
    by (simp add: os_path_join_def startswith_def dos_docs_world_def)
  have g: "fst (git_read_important_files demo_env dos_docs_world ''/srv/docs'' [''dos.txt'']) =
       Inr (read_files_loop dos_docs_world ''/srv/docs'' [''dos.txt''] Map.empty)"
    by (simp add: git_read_important_files_def read_important_files_body_def try_except_def c)
  have u: "universal_newlines (''a'' @ [CR, LF] @ ''b'') = ''a\<newline>b''" by code_simp
  have v: "read_files_loop dos_docs_world ''/srv/docs'' [''dos.txt''] Map.empty ''dos.txt'' =
       Some ''a\<newline>b''"
  proof -
    have "read_files_loop dos_docs_world ''/srv/docs'' [''dos.txt''] Map.empty ''dos.txt'' =
            Some (read_outcome (files dos_docs_world (os_path_join ''/srv/docs'' ''dos.txt'')))"
      by (simp add: read_files_loop_result)
    also have "\<dots> = Some (universal_newlines (''a'' @ [CR, LF] @ ''b''))"
      by (simp only: f read_outcome.simps)
    finally show ?thesis by (simp only: u)
  qed
  have d: "''a\<newline>b'' \<noteq> ''a'' @ [CR, LF] @ ''b''" by code_simp
  from c f g v d show ?thesis by blast
qed

lemma try_except_returns: "\<exists>v w'. try_except body handler = (Inr v, w')"
  by (cases body) (auto simp: try_except_def split: sum.splits)

lemma try_except_caught: "body = (Inl e, w') \<Longrightarrow> try_except body handler = (Inr (handler e), w')"
  by (simp add: try_except_def)

lemma directory_structure_body_raises:
  "directory_structure_body env w repo_url = (Inl e, w') \<longleftrightarrow>
     clone_repo env w repo_url = (Inl e, w')
     \<or> (\<exists>repo_path. clone_repo env w repo_url = (Inr repo_path, w') \<and> tree_at w' repo_path = Inl e)"
  by (auto simp: directory_structure_body_def split: prod.splits sum.splits)

lemma read_important_files_body_raises:
  "read_important_files_body env w repo_url file_paths = (Inl e, w') \<longleftrightarrow>
     clone_repo env w repo_url = (Inl e, w')"
  by (auto simp: read_important_files_body_def split: prod.splits sum.splits)

lemma write_file_body_raises:
  "write_file_body env w repo_url file_path content = (Inl e, w') \<longleftrightarrow>
     clone_repo env w repo_url = (Inl e, w')
     \<or> (\<exists>repo_path. clone_repo env w repo_url = (Inr repo_path, w')
            \<and> os_makedirs w' (os_path_dirname (os_path_join repo_path file_path)) = Inl e)
     \<or> (\<exists>repo_path w1. clone_repo env w repo_url = (Inr repo_path, w1)
            \<and> os_makedirs w1 (os_path_dirname (os_path_join repo_path file_path)) = Inr w'
            \<and> open_write w' (os_path_join repo_path file_path) content = Inl e)"
  by (auto simp: write_file_body_def Let_def split: prod.splits sum.splits)

text \<open>
  C5. Each of the three boundary operations returns a value for every input, and
  never lets an exception out: whatever its \<open>try\<close> block raises is turned into the
  string \<open>Error: \<close> with the message by \<open>git_directory_structure\<close>, into the mapping with
  the single key \<open>error\<close> by \<open>git_read_important_files\<close>, and into the mapping with
  \<open>status\<close> \<open>error\<close>, the message and the \<open>file_path\<close> by \<open>git_write_file\<close>.
\<close>

theorem boundary_operations_never_raise:
  "(\<exists>v w'. git_directory_structure env w repo_url = (Inr v, w'))
   \<and> (\<exists>v w'. git_read_important_files env w repo_url file_paths = (Inr v, w'))
   \<and> (\<exists>v w'. git_write_file env w repo_url file_path content = (Inr v, w'))
   \<and> (\<forall>e w'. directory_structure_body env w repo_url = (Inl e, w') \<longrightarrow>
          git_directory_structure env w repo_url = (Inr (''Error: '' @ str e), w'))
   \<and> (\<forall>e w'. read_important_files_body env w repo_url file_paths = (Inl e, w') \<longrightarrow>
          git_read_important_files env w repo_url file_paths =
            (Inr [''error'' \<mapsto> ''Failed to process repository: '' @ str e], w'))
   \<and> (\<forall>e w'. write_file_body env w repo_url file_path content = (Inl e, w') \<longrightarrow>
          git_write_file env w repo_url file_path content =
            (Inr [''status'' \<mapsto> ''error'',
                  ''message'' \<mapsto> ''Failed to write file: '' @ str e,
                  ''file_path'' \<mapsto> file_path], w'))"
proof -
  have r1: "\<exists>v w'. git_directory_structure env w repo_url = (Inr v, w')"
    unfolding git_directory_structure_def by (rule try_except_returns)
  have r2: "\<exists>v w'. git_read_important_files env w repo_url file_paths = (Inr v, w')"
    unfolding git_read_important_files_def by (rule try_except_returns)
  have r3: "\<exists>v w'. git_write_file env w repo_url file_path content = (Inr v, w')"
    unfolding git_write_file_def by (rule try_except_returns)
  have c1: "\<forall>e w'. directory_structure_body env w repo_url = (Inl e, w') \<longrightarrow>
          git_directory_structure env w repo_url = (Inr (''Error: '' @ str e), w')"
    unfolding git_directory_structure_def by (intro allI impI) (rule try_except_caught)
  have c2: "\<forall>e w'. read_important_files_body env w repo_url file_paths = (Inl e, w') \<longrightarrow>
          git_read_important_files env w repo_url file_paths =
            (Inr [''error'' \<mapsto> ''Failed to process repository: '' @ str e], w')"
    unfolding git_read_important_files_def by (intro allI impI) (rule try_except_caught)
  have c3: "\<forall>e w'. write_file_body env w repo_url file_path content = (Inl e, w') \<longrightarrow>
          git_write_file env w repo_url file_path content =
            (Inr [''status'' \<mapsto> ''error'',
                  ''message'' \<mapsto> ''Failed to write file: '' @ str e,
                  ''file_path'' \<mapsto> file_path], w')"
    unfolding git_write_file_def by (intro allI impI) (rule try_except_caught)
  from r1 r2 r3 c1 c2 c3 show ?thesis by (intro conjI)
qed

theorem boundary_operations_never_raise_witness:
  "fst (directory_structure_body offline_env empty_world demo_url) =
     Inl (Exception ''Failed to clone repository: Could not resolve host: github.com'')
   \<and> fst (git_directory_structure offline_env empty_world demo_url) =
       Inr ''Error: Failed to clone repository: Could not resolve host: github.com''
   \<and> fst (git_read_important_files offline_env empty_world demo_url [''README.md'']) =
       Inr [''error'' \<mapsto> ''Failed to process repository: Failed to clone repository: Could not resolve host: github.com'']
   \<and> fst (git_write_file offline_env empty_world demo_url ''README.md'' ''text'') =
       Inr [''status'' \<mapsto> ''error'',
            ''message'' \<mapsto> ''Failed to write file: Failed to clone repository: Could not resolve host: github.com'',
            ''file_path'' \<mapsto> ''README.md'']"
proof -
  let ?w1 = "empty_world\<lparr>dirs := (dirs empty_world)(demo_cache \<mapsto> Dir [])\<rparr>"
  let ?w2 = "?w1\<lparr>dirs := (dirs ?w1)(demo_cache \<mapsto> Dir [(''.git'', Some (Dir []))])\<rparr>"
  let ?e = "Exception ''Failed to clone repository: Could not resolve host: github.com''"
  have h1: "startswith demo_url ''https://github.com/'' \<or> \<not> os_path_exists empty_world demo_url"
    by (simp add: demo_url_remote)
  have h2: "existing_cache empty_world (cache_dir offline_env demo_url) demo_url = Continue empty_world"
    by (simp add: existing_cache_def os_path_exists_def empty_world_def)
  have h3: "os_makedirs empty_world (cache_dir offline_env demo_url) = Inr ?w1"
    unfolding demo_cache_dir by (simp add: os_makedirs_def empty_world_def)
  have h4: "clone_from offline_env demo_url (cache_dir offline_env demo_url) ?w1
              = (Some (Exception ''Could not resolve host: github.com''), ?w2)"
    unfolding demo_cache_dir by (simp add: offline_env_def broken_clone_def)
  from clone_repo_clone_raises [OF h1 h2 h3 h4]
  have c: "clone_repo offline_env empty_world demo_url = (Inl ?e, shutil_rmtree ?w2 demo_cache)"
    by (simp add: demo_cache_dir)
  have b1: "directory_structure_body offline_env empty_world demo_url =
              (Inl ?e, shutil_rmtree ?w2 demo_cache)"
    by (simp add: directory_structure_body_def c)
  have b2: "read_important_files_body offline_env empty_world demo_url [''README.md''] =
              (Inl ?e, shutil_rmtree ?w2 demo_cache)"
    by (simp add: read_important_files_body_def c)
  have b3: "write_file_body offline_env empty_world demo_url ''README.md'' ''text'' =
              (Inl ?e, shutil_rmtree ?w2 demo_cache)"
    by (simp add: write_file_body_def c)
  note t = boundary_operations_never_raise
         [of offline_env empty_world demo_url "[''README.md'']" "''README.md''" "''text''"]
  from t b1 have g1: "git_directory_structure offline_env empty_world demo_url =
      (Inr (''Error: '' @ str ?e), shutil_rmtree ?w2 demo_cache)"
    by blast
  from t b2 have g2: "git_read_important_files offline_env empty_world demo_url [''README.md''] =
      (Inr [''error'' \<mapsto> ''Failed to process repository: '' @ str ?e], shutil_rmtree ?w2 demo_cache)"
    by blast
  from t b3 have g3: "git_write_file offline_env empty_world demo_url ''README.md'' ''text'' =
      (Inr [''status'' \<mapsto> ''error'', ''message'' \<mapsto> ''Failed to write file: '' @ str ?e,
            ''file_path'' \<mapsto> ''README.md''], shutil_rmtree ?w2 demo_cache)"
    by blast
  show ?thesis by (simp add: b1 g1 g2 g3)
qed

end
